theory Spec2Isabelle
  imports Main
begin

section \<open>JavaScript values used by the store\<close>

text \<open>
  The store (\<open>src/store/index.ts\<close>) computes on JavaScript strings, arrays and numbers.
  A \<open>string\<close> here is a list of code units; HOL's \<open>char\<close> has 256 values, so the model
  covers names whose code units are below 256. Numbers are the integers the input fields
  deliver through \<open>parseInt\<close>, with exact arithmetic. Arrays are lists, and since the
  store never mutates an array or object it shares (it builds new ones with spread, \<open>map\<close>
  and \<open>filter\<close>), a copy of a value is the value.
\<close>

text \<open>A value thrown by the runtime: an \<open>Error\<close> instance with its message, or anything else.\<close>

datatype thrown = ErrorInstance string | OtherValue

text \<open>\<open>Array.prototype.slice(start, end)\<close> and \<open>String.prototype.slice(start, end)\<close>:
  a negative index counts from the end, and both are clamped to the length.\<close>

definition relIndex :: "nat \<Rightarrow> int \<Rightarrow> nat" where
  "relIndex len i = (if i < 0 then nat (int len + i) else min (nat i) len)"

definition slice :: "'a list \<Rightarrow> int \<Rightarrow> int \<Rightarrow> 'a list" where
  "slice xs start fin =
     (let from = relIndex (length xs) start; to = relIndex (length xs) fin
      in take (to - from) (drop from xs))"

text \<open>\<open>slice(start)\<close>, the end left out.\<close>

definition sliceFrom :: "'a list \<Rightarrow> int \<Rightarrow> 'a list" where
  "sliceFrom xs start = drop (relIndex (length xs) start) xs"

text \<open>\<open>substring(start, end)\<close> and \<open>substring(start)\<close> at indexes that are not negative.\<close>

definition substring :: "string \<Rightarrow> nat \<Rightarrow> nat \<Rightarrow> string" where
  "substring s start fin = take (max start fin - min start fin) (drop (min start fin) s)"

definition substringFrom :: "string \<Rightarrow> nat \<Rightarrow> string" where
  "substringFrom s start = drop start s"

definition startsWith :: "string \<Rightarrow> string \<Rightarrow> bool" where
  "startsWith s p = (take (length p) s = p)"

text \<open>\<open>s.indexOf(p)\<close>: the first position where \<open>p\<close> occurs, \<open>None\<close> for JavaScript's -1.\<close>

fun indexOf :: "string \<Rightarrow> string \<Rightarrow> nat option" where
  "indexOf [] p = (if p = [] then Some 0 else None)"
| "indexOf (c # cs) p =
     (if startsWith (c # cs) p then Some 0 else map_option Suc (indexOf cs p))"

definition strIncludes :: "string \<Rightarrow> string \<Rightarrow> bool" where
  "strIncludes s p = (indexOf s p \<noteq> None)"

text \<open>\<open>s.lastIndexOf(c)\<close> for a single character, -1 when it does not occur.\<close>

fun lastIndexFrom :: "char \<Rightarrow> string \<Rightarrow> nat \<Rightarrow> int \<Rightarrow> int" where
  "lastIndexFrom c [] i found = found"
| "lastIndexFrom c (x # xs) i found =
     lastIndexFrom c xs (Suc i) (if x = c then int i else found)"

definition lastIndexOf :: "string \<Rightarrow> char \<Rightarrow> int" where
  "lastIndexOf s c = lastIndexFrom c s 0 (- 1)"

text \<open>The replacement text of \<open>String.prototype.replace\<close> for a string pattern
  (GetSubstitution with no capture groups): \<open>$$\<close> is a dollar sign, \<open>$&\<close> the match,
  a dollar sign with a grave accent the text before it, with an apostrophe the text after it.\<close>

fun getSubstitution :: "string \<Rightarrow> string \<Rightarrow> string \<Rightarrow> string \<Rightarrow> string" where
  "getSubstitution matched left right [] = []"
| "getSubstitution matched left right [c] = [c]"
| "getSubstitution matched left right (c # d # r) =
     (if c = CHR ''$'' \<and> d = CHR ''$'' then CHR ''$'' # getSubstitution matched left right r
      else if c = CHR ''$'' \<and> d = CHR ''&'' then matched @ getSubstitution matched left right r
      else if c = CHR ''$'' \<and> d = CHR 0x60 then left @ getSubstitution matched left right r
      else if c = CHR ''$'' \<and> d = CHR 0x27 then right @ getSubstitution matched left right r
      else c # getSubstitution matched left right (d # r))"

text \<open>\<open>s.replace(p, r)\<close> with a string pattern: only the first occurrence is replaced.\<close>

definition replaceStr :: "string \<Rightarrow> string \<Rightarrow> string \<Rightarrow> string" where
  "replaceStr s p r =
     (case indexOf s p of
        None \<Rightarrow> s
      | Some i \<Rightarrow>
          take i s @ getSubstitution p (take i s) (drop (i + length p) s) r
            @ drop (i + length p) s)"

text \<open>\<open>s.split(sep)\<close> and \<open>parts.join(sep)\<close>.\<close>

function splitFrom :: "string \<Rightarrow> string \<Rightarrow> string \<Rightarrow> string list" where
  "splitFrom sep cur s =
     (if s = [] then [cur]
      else if sep \<noteq> [] \<and> startsWith s sep then cur # splitFrom sep [] (drop (length sep) s)
      else splitFrom sep (cur @ [hd s]) (tl s))"
  by pat_completeness auto
termination
  by (relation "measure (\<lambda>(sep, cur, s). length s)") auto

definition splitStr :: "string \<Rightarrow> string \<Rightarrow> string list" where
  "splitStr s sep = (if sep = [] then map (\<lambda>c. [c]) s else splitFrom sep [] s)"

fun joinStr :: "string list \<Rightarrow> string \<Rightarrow> string" where
  "joinStr [] sep = []"
| "joinStr [p] sep = p"
| "joinStr (p # q # ps) sep = p @ sep @ joinStr (q # ps) sep"

text \<open>White space as \<open>trim\<close> sees it, among the code units below 256.\<close>

definition isWhiteSpace :: "char \<Rightarrow> bool" where
  "isWhiteSpace c =
     (c \<in> set [CHR 0x09, CHR 0x0A, CHR 0x0B, CHR 0x0C, CHR 0x0D, CHR 0x20, CHR 0xA0])"

definition trim :: "string \<Rightarrow> string" where
  "trim s = rev (dropWhile isWhiteSpace (rev (dropWhile isWhiteSpace s)))"

text \<open>\<open>n.toString()\<close> for an integer.\<close>

function digitsOf :: "nat \<Rightarrow> string" where
  "digitsOf n =
     (if n < 10 then [''0123456789'' ! n]
      else digitsOf (n div 10) @ [''0123456789'' ! (n mod 10)])"
  by pat_completeness auto
termination
  by (relation "measure (\<lambda>n. n)") auto

definition numberToString :: "int \<Rightarrow> string" where
  "numberToString i = (if i < 0 then CHR ''-'' # digitsOf (nat (- i)) else digitsOf (nat i))"

text \<open>\<open>ToLength\<close> of an integer argument.\<close>

definition toLength :: "int \<Rightarrow> nat" where
  "toLength i = (if i \<le> 0 then 0 else nat (min i (2 ^ 53 - 1)))"

text \<open>\<open>s.padStart(n, '0')\<close> where the result fits a string.\<close>

definition padZeros :: "string \<Rightarrow> nat \<Rightarrow> string" where
  "padZeros s n = (if n \<le> length s then s else replicate (n - length s) CHR ''0'' @ s)"

subsection \<open>The platform\<close>

text \<open>
  What the store takes from the JavaScript engine and cannot be read off the repository
  is a parameter of the model: the regular-expression engine, the case mappings, the
  longest string the engine builds, and the local calendar fields of a time stamp.
\<close>

record JSDate =
  getFullYear :: int
  getMonth :: int
  getDate :: int
  getHours :: int
  getMinutes :: int
  getSeconds :: int

record platform =
  regExpError :: "string \<Rightarrow> string \<Rightarrow> string option"
  regExpReplace :: "string \<Rightarrow> string \<Rightarrow> string \<Rightarrow> string \<Rightarrow> string"
  regExpReplaceFn :: "string \<Rightarrow> string \<Rightarrow> string \<Rightarrow> (string list \<Rightarrow> string) \<Rightarrow> string"
  toUpperCase :: "string \<Rightarrow> string"
  toLowerCase :: "string \<Rightarrow> string"
  maxStringLength :: nat
  invalidStringLength :: string
  newDate :: "int \<Rightarrow> JSDate"
  inexactCounter :: "int \<Rightarrow> nat \<Rightarrow> int \<Rightarrow> string"

text \<open>
  \<^item> \<open>regExpError env p f\<close> is the message of the \<open>SyntaxError\<close> that \<open>new RegExp(p, f)\<close>
    throws, \<open>None\<close> when the pattern compiles;
  \<^item> \<open>regExpReplace env p f s r\<close> is \<open>s.replace(new RegExp(p, f), r)\<close> for a pattern
    that compiles, and \<open>regExpReplaceFn env p f s g\<close> the same with a callback, which
    receives the match followed by its groups;
  \<^item> \<open>maxStringLength env\<close> is the engine's longest string and \<open>invalidStringLength env\<close>
    the message of the \<open>RangeError\<close> it throws beyond it;
  \<^item> \<open>newDate env t\<close> are the local calendar fields of \<open>new Date(t)\<close>;
  \<^item> \<open>inexactCounter env start index step\<close> is what \<open>(start + index * step).toString()\<close>
    prints where the engine's doubles no longer hold the integers exactly.
\<close>

text \<open>\<open>s.padStart(n, '0')\<close> with a length the user supplies.\<close>

definition padStart :: "platform \<Rightarrow> string \<Rightarrow> int \<Rightarrow> thrown + string" where
  "padStart env s maxLength =
     (if toLength maxLength \<le> length s then Inr s
      else if maxStringLength env < toLength maxLength
      then Inl (ErrorInstance (invalidStringLength env))
      else Inr (padZeros s (toLength maxLength)))"

section \<open>The data model (\<open>types/index.ts\<close>)\<close>

text \<open>
  The interfaces of \<open>types/index.ts\<close> as records. Several configuration shapes share field
  names (\<open>position\<close>, \<open>separator\<close>, \<open>pattern\<close>), so every field carries a prefix for its shape;
  \<open>id\<close>, \<open>name\<close> and \<open>type\<close> are renamed where they would hide a constant of the logic.
\<close>

text \<open>The browser's \<open>File\<close>, as far as the store reads it.\<close>

record File =
  file_name :: string
  lastModified :: int

record FileItem =
  file_id :: string
  originalFile :: File
  originalName :: string
  newName :: string
  extension :: string
  isValid :: bool
  errorMessage :: "string option"

datatype CaseType =
  Uppercase | Lowercase | Titlecase | Sentencecase | CamelCase | SnakeCase | KebabCase

record FindReplaceConfig =
  fr_find :: string
  fr_replace :: string
  fr_caseSensitive :: bool
  fr_useRegex :: bool
  fr_replaceAll :: bool

datatype Side = SidePrefix | SideSuffix

record PrefixSuffixConfig =
  ps_text :: string
  ps_position :: Side
  ps_addCounter :: bool
  ps_counterStart :: int
  ps_counterPadding :: int
  ps_counterStep :: int

datatype RemoveMode = FirstN | LastN | CharRange | SpecificChars | ByPattern

record RemoveCharsConfig =
  rc_mode :: RemoveMode
  rc_count :: int
  rc_startIndex :: int
  rc_endIndex :: int
  rc_characters :: string
  rc_pattern :: string

record CaseChangeConfig =
  cc_caseType :: CaseType

datatype Placement = PlacePrefix | PlaceSuffix | PlaceReplace

record NumberingConfig =
  nu_position :: Placement
  nu_startNumber :: int
  nu_step :: int
  nu_padding :: int
  nu_separator :: string
  nu_format :: string

datatype DateSource = Current | Modified | Created

record DateTimeConfig =
  dt_source :: DateSource
  dt_format :: string
  dt_position :: Placement
  dt_separator :: string

record RegexConfig =
  re_pattern :: string
  re_replacement :: string
  re_flags :: string

record TrimConfig =
  tr_trimSpaces :: bool
  tr_removeDuplicateSpaces :: bool
  tr_removeSpecialChars :: bool
  tr_specialCharsToRemove :: string
  tr_replaceSpacesWith :: string

datatype ExtensionAction = Change | Add | Remove | ExtLowercase | ExtUppercase

record ExtensionConfig =
  ex_action :: ExtensionAction
  ex_newExtension :: string

text \<open>
  An operation's \<open>type\<close> and \<open>config\<close> are one tagged value: every operation the store
  builds (\<open>getDefaultConfig\<close>, the presets, \<open>updateOperation\<close> from the form of its own
  type) carries the configuration shape of its type. The types \<open>prefix\<close> and \<open>suffix\<close>
  share a shape, whose \<open>position\<close> field decides where the text goes.
\<close>

datatype OperationConfig =
    FindReplace FindReplaceConfig
  | Prefix PrefixSuffixConfig
  | Suffix PrefixSuffixConfig
  | RemoveChars RemoveCharsConfig
  | CaseChange CaseChangeConfig
  | Numbering NumberingConfig
  | DateTime DateTimeConfig
  | Regex RegexConfig
  | Trim TrimConfig
  | Extension ExtensionConfig

record Operation =
  op_id :: string
  enabled :: bool
  config :: OperationConfig

text \<open>The \<open>type\<close> string of an operation.\<close>

fun operationType :: "OperationConfig \<Rightarrow> string" where
  "operationType (FindReplace c) = ''find-replace''"
| "operationType (Prefix c) = ''prefix''"
| "operationType (Suffix c) = ''suffix''"
| "operationType (RemoveChars c) = ''remove-chars''"
| "operationType (CaseChange c) = ''case-change''"
| "operationType (Numbering c) = ''numbering''"
| "operationType (DateTime c) = ''date-time''"
| "operationType (Regex c) = ''regex''"
| "operationType (Trim c) = ''trim''"
| "operationType (Extension c) = ''extension''"

record Preset =
  preset_id :: string
  preset_name :: string
  preset_description :: string
  preset_icon :: string
  preset_operations :: "Operation list"

text \<open>The store's state: the file queue, the pipeline and the undo history. The preset
  lists and the display flag play no part in evaluation or history and are left out.\<close>

record AppState =
  files :: "FileItem list"
  operations :: "Operation list"
  history :: "Operation list list"
  historyIndex :: int
  maxHistoryLength :: nat

section \<open>The transformers\<close>

text \<open>
  The transformers as functions on strings of any length: of the strings they build, only
  the result of \<open>padStart\<close> is held against the engine's longest string. The evaluation
  with that limit at every string follows in a section of its own.
\<close>

definition backslash :: char where
  "backslash = CHR 0x5C"

text \<open>\<open>new RegExp(p, f)\<close> followed by \<open>s.replace(regex, r)\<close>, inside \<open>try\<close> with a
  \<open>catch\<close> that returns the name unchanged, and outside any \<open>try\<close>.\<close>

definition replaceOrKeep :: "platform \<Rightarrow> string \<Rightarrow> string \<Rightarrow> string \<Rightarrow> string \<Rightarrow> string" where
  "replaceOrKeep env p f s r =
     (case regExpError env p f of Some m \<Rightarrow> s | None \<Rightarrow> regExpReplace env p f s r)"

definition replaceOrThrow ::
  "platform \<Rightarrow> string \<Rightarrow> string \<Rightarrow> string \<Rightarrow> string \<Rightarrow> thrown + string" where
  "replaceOrThrow env p f s r =
     (case regExpError env p f of
        Some m \<Rightarrow> Inl (ErrorInstance m)
      | None \<Rightarrow> Inr (regExpReplace env p f s r))"

definition escapeRegex :: "string \<Rightarrow> string" where
  "escapeRegex str =
     concat (map (\<lambda>c. if c \<in> set ''.*+?^${}()|[]'' \<or> c = backslash then [backslash, c] else [c])
       str)"

definition applyFindReplace :: "platform \<Rightarrow> string \<Rightarrow> FindReplaceConfig \<Rightarrow> thrown + string" where
  "applyFindReplace env nm c =
     (if fr_find c = [] then Inr nm
      else if fr_useRegex c then
        (let flags = (if fr_caseSensitive c then ''g'' else ''gi'')
         in Inr (replaceOrKeep env (fr_find c)
                  (if fr_replaceAll c then flags else replaceStr flags ''g'' []) nm (fr_replace c)))
      else if fr_caseSensitive c then
        (if fr_replaceAll c then Inr (joinStr (splitStr nm (fr_find c)) (fr_replace c))
         else Inr (replaceStr nm (fr_find c) (fr_replace c)))
      else if fr_replaceAll c then
        replaceOrThrow env (escapeRegex (fr_find c)) ''gi'' nm (fr_replace c)
      else replaceOrThrow env (escapeRegex (fr_find c)) ''i'' nm (fr_replace c))"

definition applyPrefixSuffix ::
  "platform \<Rightarrow> string \<Rightarrow> PrefixSuffixConfig \<Rightarrow> nat \<Rightarrow> thrown + string" where
  "applyPrefixSuffix env nm c index =
     (case (if ps_addCounter c then
              (case padStart env
                      (numberToString (ps_counterStart c + int index * ps_counterStep c))
                      (ps_counterPadding c) of
                 Inl e \<Rightarrow> Inl e
               | Inr paddedNum \<Rightarrow>
                   (let replaced = replaceStr (ps_text c) ''[N]'' paddedNum;
                        txt = (if replaced = [] then paddedNum else replaced)
                    in Inr (if \<not> strIncludes txt paddedNum then txt @ paddedNum else txt)))
            else Inr (ps_text c)) of
        Inl e \<Rightarrow> Inl e
      | Inr txt \<Rightarrow> Inr (if ps_position c = SidePrefix then txt @ nm else nm @ txt))"

definition applyRemoveChars :: "platform \<Rightarrow> string \<Rightarrow> RemoveCharsConfig \<Rightarrow> string" where
  "applyRemoveChars env nm c =
     (case rc_mode c of
        FirstN \<Rightarrow> sliceFrom nm (rc_count c)
      | LastN \<Rightarrow> slice nm 0 (if - rc_count c = 0 then int (length nm) else - rc_count c)
      | CharRange \<Rightarrow> slice nm 0 (rc_startIndex c) @ sliceFrom nm (rc_endIndex c)
      | SpecificChars \<Rightarrow> filter (\<lambda>ch. ch \<notin> set (rc_characters c)) nm
      | ByPattern \<Rightarrow> replaceOrKeep env (rc_pattern c) ''g'' nm [])"

definition applyCaseChange :: "platform \<Rightarrow> string \<Rightarrow> CaseChangeConfig \<Rightarrow> string" where
  "applyCaseChange env nm c =
     (case cc_caseType c of
        Uppercase \<Rightarrow> toUpperCase env nm
      | Lowercase \<Rightarrow> toLowerCase env nm
      | Titlecase \<Rightarrow>
          regExpReplaceFn env (backslash # ''w'' @ backslash # ''S*'') ''g'' nm
            (\<lambda>args. toUpperCase env (take 1 (hd args))
                     @ toLowerCase env (substringFrom (hd args) 1))
      | Sentencecase \<Rightarrow> toUpperCase env (take 1 nm) @ toLowerCase env (sliceFrom nm 1)
      | CamelCase \<Rightarrow>
          regExpReplaceFn env ''[^a-zA-Z0-9]+(.)'' ''g'' (toLowerCase env nm)
            (\<lambda>args. toUpperCase env (args ! 1))
      | SnakeCase \<Rightarrow>
          toLowerCase env
            (regExpReplace env ''[^a-zA-Z0-9_]'' ''g''
              (regExpReplace env ''([a-z])([A-Z])'' ''g''
                (regExpReplace env (backslash # ''s+'') ''g'' nm ''_'') ''$1_$2'') ''_'')
      | KebabCase \<Rightarrow>
          toLowerCase env
            (regExpReplace env ''[^a-zA-Z0-9-]'' ''g''
              (regExpReplace env ''([a-z])([A-Z])'' ''g''
                (regExpReplace env (backslash # ''s+'') ''g'' nm ''-'') ''$1-$2'') ''-''))"

definition applyNumbering ::
  "platform \<Rightarrow> string \<Rightarrow> NumberingConfig \<Rightarrow> nat \<Rightarrow> thrown + string" where
  "applyNumbering env nm c index =
     (case padStart env (numberToString (nu_startNumber c + int index * nu_step c))
             (nu_padding c) of
        Inl e \<Rightarrow> Inl e
      | Inr paddedNum \<Rightarrow>
          (let formatted = replaceStr (nu_format c) ''[N]'' paddedNum
           in Inr (case nu_position c of
                     PlacePrefix \<Rightarrow> formatted @ nu_separator c @ nm
                   | PlaceSuffix \<Rightarrow> nm @ nu_separator c @ formatted
                   | PlaceReplace \<Rightarrow> formatted)))"

definition formatDate :: "JSDate \<Rightarrow> string \<Rightarrow> string" where
  "formatDate date fmt =
     fold (\<lambda>(token, v) result. replaceStr result token v)
       [(''YYYY'', numberToString (getFullYear date)),
        (''YY'', sliceFrom (numberToString (getFullYear date)) (- 2)),
        (''MM'', padZeros (numberToString (getMonth date + 1)) 2),
        (''DD'', padZeros (numberToString (getDate date)) 2),
        (''HH'', padZeros (numberToString (getHours date)) 2),
        (''mm'', padZeros (numberToString (getMinutes date)) 2),
        (''ss'', padZeros (numberToString (getSeconds date)) 2)]
       fmt"

text \<open>\<open>now\<close> is what \<open>new Date()\<close> returns in this call.\<close>

definition applyDateTime ::
  "platform \<Rightarrow> JSDate \<Rightarrow> string \<Rightarrow> DateTimeConfig \<Rightarrow> File \<Rightarrow> string" where
  "applyDateTime env now nm c file =
     (let date = (case dt_source c of
                    Modified \<Rightarrow> newDate env (lastModified file)
                  | Created \<Rightarrow> newDate env (lastModified file)
                  | Current \<Rightarrow> now);
          formatted = formatDate date (dt_format c)
      in case dt_position c of
           PlacePrefix \<Rightarrow> formatted @ dt_separator c @ nm
         | PlaceSuffix \<Rightarrow> nm @ dt_separator c @ formatted
         | PlaceReplace \<Rightarrow> formatted)"

definition applyRegex :: "platform \<Rightarrow> string \<Rightarrow> RegexConfig \<Rightarrow> string" where
  "applyRegex env nm c =
     (if re_pattern c = [] then nm
      else replaceOrKeep env (re_pattern c) (re_flags c) nm (re_replacement c))"

definition applyTrim :: "platform \<Rightarrow> string \<Rightarrow> TrimConfig \<Rightarrow> string" where
  "applyTrim env nm c =
     (let r1 = (if tr_trimSpaces c then trim nm else nm);
          r2 = (if tr_removeDuplicateSpaces c
                then regExpReplace env (backslash # ''s+'') ''g'' r1 '' '' else r1);
          r3 = (if tr_removeSpecialChars c \<and> tr_specialCharsToRemove c \<noteq> []
                then filter (\<lambda>ch. ch \<notin> set (tr_specialCharsToRemove c)) r2 else r2)
      in if tr_replaceSpacesWith c \<noteq> []
         then regExpReplace env (backslash # ''s'') ''g'' r3 (tr_replaceSpacesWith c) else r3)"

definition applyExtension :: "platform \<Rightarrow> string \<Rightarrow> ExtensionConfig \<Rightarrow> string" where
  "applyExtension env ext c =
     (case ex_action c of
        Change \<Rightarrow>
          (if startsWith (ex_newExtension c) ''.'' then ex_newExtension c
           else ''.'' @ ex_newExtension c)
      | Add \<Rightarrow>
          ext @ (if startsWith (ex_newExtension c) ''.'' then ex_newExtension c
                 else ''.'' @ ex_newExtension c)
      | Remove \<Rightarrow> []
      | ExtLowercase \<Rightarrow> toLowerCase env ext
      | ExtUppercase \<Rightarrow> toUpperCase env ext)"

section \<open>Evaluating the pipeline\<close>

text \<open>What \<open>processFileName\<close> returns.\<close>

record NameResult =
  r_newName :: string
  r_isValid :: bool
  r_errorMessage :: "string option"

definition keepExt :: "string \<Rightarrow> thrown + string \<Rightarrow> thrown + string \<times> string" where
  "keepExt ext r = (case r of Inl e \<Rightarrow> Inl e | Inr nm \<Rightarrow> Inr (nm, ext))"

text \<open>The \<open>switch\<close> on the operation's type: one step of the loop on the base name and the
  extension. \<open>Inl\<close> is an exception that leaves the transformer.\<close>

fun applyOperation ::
  "platform \<Rightarrow> JSDate \<Rightarrow> FileItem \<Rightarrow> nat \<Rightarrow> OperationConfig \<Rightarrow> string \<times> string
     \<Rightarrow> thrown + string \<times> string" where
  "applyOperation env now file index (FindReplace c) (nm, ext) =
     keepExt ext (applyFindReplace env nm c)"
| "applyOperation env now file index (Prefix c) (nm, ext) =
     keepExt ext (applyPrefixSuffix env nm c index)"
| "applyOperation env now file index (Suffix c) (nm, ext) =
     keepExt ext (applyPrefixSuffix env nm c index)"
| "applyOperation env now file index (RemoveChars c) (nm, ext) =
     Inr (applyRemoveChars env nm c, ext)"
| "applyOperation env now file index (CaseChange c) (nm, ext) =
     Inr (applyCaseChange env nm c, ext)"
| "applyOperation env now file index (Numbering c) (nm, ext) =
     keepExt ext (applyNumbering env nm c index)"
| "applyOperation env now file index (DateTime c) (nm, ext) =
     Inr (applyDateTime env now nm c (originalFile file), ext)"
| "applyOperation env now file index (Regex c) (nm, ext) =
     Inr (applyRegex env nm c, ext)"
| "applyOperation env now file index (Trim c) (nm, ext) =
     Inr (applyTrim env nm c, ext)"
| "applyOperation env now file index (Extension c) (nm, ext) =
     Inr (nm, applyExtension env ext c)"

text \<open>The message of the \<open>catch\<close> block.\<close>

definition caughtMessage :: "OperationConfig \<Rightarrow> thrown \<Rightarrow> string" where
  "caughtMessage c e =
     ''Error in '' @ operationType c @ '': ''
       @ (case e of ErrorInstance m \<Rightarrow> m | OtherValue \<Rightarrow> ''Unknown error'')"

text \<open>
  The \<open>for\<close> loop over the pipeline. \<open>clock k\<close> is the reading \<open>new Date()\<close> gives in the
  call made at position \<open>k\<close> of the pipeline. \<open>Inl\<close> is the early return of the \<open>catch\<close>
  block, \<open>Inr\<close> the base name and extension the loop ends with.
\<close>

fun runOperations ::
  "platform \<Rightarrow> (nat \<Rightarrow> JSDate) \<Rightarrow> FileItem \<Rightarrow> nat \<Rightarrow> nat \<Rightarrow> Operation list
     \<Rightarrow> string \<times> string \<Rightarrow> NameResult + string \<times> string" where
  "runOperations env clock file index k [] st = Inr st"
| "runOperations env clock file index k (op # ops) st =
     (if \<not> enabled op then runOperations env clock file index (Suc k) ops st
      else case applyOperation env (clock k) file index (config op) st of
        Inl e \<Rightarrow>
          Inl \<lparr>r_newName = originalName file, r_isValid = False,
               r_errorMessage = Some (caughtMessage (config op) e)\<rparr>
      | Inr st' \<Rightarrow> runOperations env clock file index (Suc k) ops st')"

text \<open>The character class of \<open>invalidChars\<close>.\<close>

definition isInvalidChar :: "char \<Rightarrow> bool" where
  "isInvalidChar c =
     (c \<in> set ''<>:/|?*'' \<or> c = CHR 0x22 \<or> c = backslash \<or> (of_char c :: nat) < 32)"

definition hasInvalidChars :: "string \<Rightarrow> bool" where
  "hasInvalidChars s = list_ex isInvalidChar s"

definition baseName :: "string \<Rightarrow> string" where
  "baseName nm =
     (if lastIndexOf nm CHR ''.'' > 0 then substring nm 0 (nat (lastIndexOf nm CHR ''.''))
      else nm)"

definition validateName :: "string \<times> string \<Rightarrow> NameResult" where
  "validateName st =
     (case st of (nm, ext) \<Rightarrow>
        if hasInvalidChars (nm @ ext)
        then \<lparr>r_newName = nm @ ext, r_isValid = False,
              r_errorMessage = Some ''Filename contains invalid characters''\<rparr>
        else if trim nm = []
        then \<lparr>r_newName = nm @ ext, r_isValid = False,
              r_errorMessage = Some ''Filename cannot be empty''\<rparr>
        else \<lparr>r_newName = nm @ ext, r_isValid = True, r_errorMessage = None\<rparr>)"

definition processFileName ::
  "platform \<Rightarrow> (nat \<Rightarrow> JSDate) \<Rightarrow> FileItem \<Rightarrow> Operation list \<Rightarrow> nat \<Rightarrow> NameResult" where
  "processFileName env clock file ops index =
     (case runOperations env clock file index 0 ops
             (baseName (originalName file), extension file) of
        Inl r \<Rightarrow> r
      | Inr st \<Rightarrow> validateName st)"

text \<open>
  \<open>processFiles\<close>: the first \<open>map\<close> evaluates every file at its position, the loop counts
  the proposed names in a \<open>Map\<close>, the second \<open>map\<close> marks the names counted more than
  once. \<open>clock i k\<close> is the clock reading in the call for file \<open>i\<close> at pipeline position \<open>k\<close>.
\<close>

definition processedFiles ::
  "platform \<Rightarrow> (nat \<Rightarrow> nat \<Rightarrow> JSDate) \<Rightarrow> Operation list \<Rightarrow> FileItem list \<Rightarrow> FileItem list" where
  "processedFiles env clock ops fs =
     map (\<lambda>(index, file).
            let result = processFileName env (clock index) file ops index
            in file\<lparr>newName := r_newName result, isValid := r_isValid result,
                    errorMessage := r_errorMessage result\<rparr>)
       (enumerate 0 fs)"

definition getOrZero :: "(string \<rightharpoonup> nat) \<Rightarrow> string \<Rightarrow> nat" where
  "getOrZero m k = (case m k of None \<Rightarrow> 0 | Some n \<Rightarrow> n)"

definition nameCount :: "FileItem list \<Rightarrow> (string \<rightharpoonup> nat)" where
  "nameCount fs = fold (\<lambda>file m. m(newName file \<mapsto> getOrZero m (newName file) + 1)) fs Map.empty"

definition markDuplicates :: "FileItem list \<Rightarrow> FileItem list" where
  "markDuplicates fs =
     map (\<lambda>file. if getOrZero (nameCount fs) (newName file) > 1
                  then file\<lparr>isValid := False, errorMessage := Some ''Duplicate filename''\<rparr>
                  else file)
       fs"

definition processFiles :: "platform \<Rightarrow> (nat \<Rightarrow> nat \<Rightarrow> JSDate) \<Rightarrow> AppState \<Rightarrow> AppState" where
  "processFiles env clock s =
     s\<lparr>files := markDuplicates (processedFiles env clock (operations s) (files s))\<rparr>"

section \<open>The store's actions\<close>

text \<open>
  Every action takes the store's state and returns the new one. \<open>reorderFiles\<close>,
  \<open>reorderOperations\<close>, \<open>saveCustomPreset\<close>, \<open>deleteCustomPreset\<close> and \<open>setShowAdvanced\<close> are
  left out: no property below is about them.
\<close>

definition initialState :: AppState where
  "initialState =
     \<lparr>files = [], operations = [], history = [[]], historyIndex = 0, maxHistoryLength = 50\<rparr>"

text \<open>\<open>genId k\<close> is what the \<open>k\<close>-th call of \<open>generateId\<close> in this action returns.\<close>

definition fileExtension :: "string \<Rightarrow> string" where
  "fileExtension nm =
     (if lastIndexOf nm CHR ''.'' > 0 then substringFrom nm (nat (lastIndexOf nm CHR ''.''))
      else [])"

definition addFiles ::
  "platform \<Rightarrow> (nat \<Rightarrow> nat \<Rightarrow> JSDate) \<Rightarrow> (nat \<Rightarrow> string) \<Rightarrow> File list \<Rightarrow> AppState \<Rightarrow> AppState" where
  "addFiles env clock genId newFiles s =
     (let existingNames = set (map originalName (files s));
          newFileItems =
            map (\<lambda>(k, file).
                   \<lparr>file_id = genId k, originalFile = file, originalName = file_name file,
                    newName = file_name file, extension = fileExtension (file_name file),
                    isValid = True, errorMessage = None\<rparr>)
              (enumerate 0 (filter (\<lambda>f. file_name f \<notin> existingNames) newFiles))
      in processFiles env clock (s\<lparr>files := files s @ newFileItems\<rparr>))"

definition removeFile ::
  "platform \<Rightarrow> (nat \<Rightarrow> nat \<Rightarrow> JSDate) \<Rightarrow> string \<Rightarrow> AppState \<Rightarrow> AppState" where
  "removeFile env clock i s =
     processFiles env clock (s\<lparr>files := filter (\<lambda>f. file_id f \<noteq> i) (files s)\<rparr>)"

definition clearFiles :: "AppState \<Rightarrow> AppState" where
  "clearFiles s = s\<lparr>files := []\<rparr>"

text \<open>The \<open>while\<close> loop of \<open>pushToHistory\<close>, which shifts the oldest entries out.\<close>

function shiftWhile :: "'a list \<Rightarrow> nat \<Rightarrow> 'a list" where
  "shiftWhile h m = (if length h > m then shiftWhile (tl h) m else h)"
  by pat_completeness auto
termination
  by (relation "measure (\<lambda>(h, m). length h)") auto

definition pushToHistory :: "AppState \<Rightarrow> AppState" where
  "pushToHistory s =
     (let newHistory =
            shiftWhile (slice (history s) 0 (historyIndex s + 1) @ [operations s])
              (maxHistoryLength s)
      in s\<lparr>history := newHistory, historyIndex := int (length newHistory) - 1\<rparr>)"

datatype OperationType =
    TFindReplace | TPrefix | TSuffix | TRemoveChars | TCaseChange | TNumbering | TDateTime
  | TRegex | TTrim | TExtension

fun getDefaultConfig :: "OperationType \<Rightarrow> OperationConfig" where
  "getDefaultConfig TFindReplace =
     FindReplace \<lparr>fr_find = [], fr_replace = [], fr_caseSensitive = False,
       fr_useRegex = False, fr_replaceAll = True\<rparr>"
| "getDefaultConfig TPrefix =
     Prefix \<lparr>ps_text = [], ps_position = SidePrefix, ps_addCounter = False,
       ps_counterStart = 1, ps_counterPadding = 2, ps_counterStep = 1\<rparr>"
| "getDefaultConfig TSuffix =
     Suffix \<lparr>ps_text = [], ps_position = SideSuffix, ps_addCounter = False,
       ps_counterStart = 1, ps_counterPadding = 2, ps_counterStep = 1\<rparr>"
| "getDefaultConfig TRemoveChars =
     RemoveChars \<lparr>rc_mode = FirstN, rc_count = 0, rc_startIndex = 0, rc_endIndex = 0,
       rc_characters = [], rc_pattern = []\<rparr>"
| "getDefaultConfig TCaseChange = CaseChange \<lparr>cc_caseType = Lowercase\<rparr>"
| "getDefaultConfig TNumbering =
     Numbering \<lparr>nu_position = PlacePrefix, nu_startNumber = 1, nu_step = 1, nu_padding = 3,
       nu_separator = ''_'', nu_format = ''[N]''\<rparr>"
| "getDefaultConfig TDateTime =
     DateTime \<lparr>dt_source = Current, dt_format = ''YYYY-MM-DD'', dt_position = PlacePrefix,
       dt_separator = ''_''\<rparr>"
| "getDefaultConfig TRegex = Regex \<lparr>re_pattern = [], re_replacement = [], re_flags = ''gi''\<rparr>"
| "getDefaultConfig TTrim =
     Trim \<lparr>tr_trimSpaces = True, tr_removeDuplicateSpaces = True,
       tr_removeSpecialChars = False,
       tr_specialCharsToRemove = ''!@#$%^&*()+=[]{}|;:'' @ [CHR 0x27, CHR 0x22] @ '',<>?'',
       tr_replaceSpacesWith = []\<rparr>"
| "getDefaultConfig TExtension = Extension \<lparr>ex_action = ExtLowercase, ex_newExtension = []\<rparr>"

definition addOperation ::
  "platform \<Rightarrow> (nat \<Rightarrow> nat \<Rightarrow> JSDate) \<Rightarrow> string \<Rightarrow> OperationType \<Rightarrow> AppState \<Rightarrow> AppState" where
  "addOperation env clock newId t s =
     (let s1 = pushToHistory s
      in processFiles env clock
           (s1\<lparr>operations := operations s1
                   @ [\<lparr>op_id = newId, enabled = True, config = getDefaultConfig t\<rparr>]\<rparr>))"

text \<open>\<open>updateOperation\<close>: \<open>merge\<close> is the effect of spreading the partial configuration over
  the operation's own.\<close>

definition updateOperation ::
  "platform \<Rightarrow> (nat \<Rightarrow> nat \<Rightarrow> JSDate) \<Rightarrow> string \<Rightarrow> (OperationConfig \<Rightarrow> OperationConfig)
     \<Rightarrow> AppState \<Rightarrow> AppState" where
  "updateOperation env clock i merge s =
     (let s1 = pushToHistory s
      in processFiles env clock
           (s1\<lparr>operations :=
                 map (\<lambda>op. if op_id op = i then op\<lparr>config := merge (config op)\<rparr> else op)
                   (operations s1)\<rparr>))"

definition removeOperation ::
  "platform \<Rightarrow> (nat \<Rightarrow> nat \<Rightarrow> JSDate) \<Rightarrow> string \<Rightarrow> AppState \<Rightarrow> AppState" where
  "removeOperation env clock i s =
     (let s1 = pushToHistory s
      in processFiles env clock
           (s1\<lparr>operations := filter (\<lambda>op. op_id op \<noteq> i) (operations s1)\<rparr>))"

definition toggleOperation ::
  "platform \<Rightarrow> (nat \<Rightarrow> nat \<Rightarrow> JSDate) \<Rightarrow> string \<Rightarrow> AppState \<Rightarrow> AppState" where
  "toggleOperation env clock i s =
     (let s1 = pushToHistory s
      in processFiles env clock
           (s1\<lparr>operations :=
                 map (\<lambda>op. if op_id op = i then op\<lparr>enabled := \<not> enabled op\<rparr> else op)
                   (operations s1)\<rparr>))"

definition clearOperations :: "platform \<Rightarrow> (nat \<Rightarrow> nat \<Rightarrow> JSDate) \<Rightarrow> AppState \<Rightarrow> AppState" where
  "clearOperations env clock s =
     processFiles env clock ((pushToHistory s)\<lparr>operations := []\<rparr>)"

definition applyPreset ::
  "platform \<Rightarrow> (nat \<Rightarrow> nat \<Rightarrow> JSDate) \<Rightarrow> Preset \<Rightarrow> AppState \<Rightarrow> AppState" where
  "applyPreset env clock preset s =
     processFiles env clock ((pushToHistory s)\<lparr>operations := preset_operations preset\<rparr>)"

text \<open>
  \<open>undo\<close> and \<open>redo\<close>. Reading \<open>history[newIndex]\<close> outside the array gives \<open>undefined\<close>,
  whose \<open>map\<close> throws a \<open>TypeError\<close> before the state is set: that is \<open>None\<close>.
\<close>

definition undo :: "platform \<Rightarrow> (nat \<Rightarrow> nat \<Rightarrow> JSDate) \<Rightarrow> AppState \<Rightarrow> AppState option" where
  "undo env clock s =
     (if historyIndex s > 0 then
        (let newIndex = historyIndex s - 1
         in if nat newIndex < length (history s)
            then Some (processFiles env clock
                   (s\<lparr>operations := history s ! nat newIndex, historyIndex := newIndex\<rparr>))
            else None)
      else Some s)"

definition redo :: "platform \<Rightarrow> (nat \<Rightarrow> nat \<Rightarrow> JSDate) \<Rightarrow> AppState \<Rightarrow> AppState option" where
  "redo env clock s =
     (if historyIndex s < int (length (history s)) - 1 then
        (let newIndex = historyIndex s + 1
         in if 0 \<le> newIndex \<and> nat newIndex < length (history s)
            then Some (processFiles env clock
                   (s\<lparr>operations := history s ! nat newIndex, historyIndex := newIndex\<rparr>))
            else None)
      else Some s)"

definition canUndo :: "AppState \<Rightarrow> bool" where
  "canUndo s = (historyIndex s > 0)"

definition canRedo :: "AppState \<Rightarrow> bool" where
  "canRedo s = (historyIndex s < int (length (history s)) - 1)"

section \<open>Evaluation within the engine's longest string\<close>

text \<open>
  The transformers above compute on strings of any length; only \<open>padStart\<close> knows the
  engine's limit. That is the evaluation of names the engine can hold. The engine itself
  throws a \<open>RangeError\<close> from every expression that would build a string longer than
  \<open>maxStringLength env\<close>: inside a transformer, where the \<open>catch\<close> of \<open>processFileName\<close> or
  of the transformer receives it, and in the recombination of base name and extension
  after the loop, where nothing does. For the properties that are about exceptions the
  evaluation is modelled here once more, with the limit at every string the store builds
  from its data: a template literal, a concatenation, the result of \<open>replace\<close>, of \<open>join\<close>
  or of a case mapping. A string that can only come out shorter (\<open>slice\<close>, \<open>substring\<close>,
  \<open>trim\<close>, the characters a \<open>filter\<close> keeps) needs no check, and the source's own literals
  and the calendar fields of a date are short. The definitions carry the names of the
  source with the suffix \<open>_bounded\<close>.
\<close>

text \<open>An expression that may throw has a sum type, \<open>Inl\<close> the value thrown; \<open>andThen r f\<close>
  goes on with \<open>f\<close> when \<open>r\<close> did not throw.\<close>

definition andThen :: "thrown + 'a \<Rightarrow> ('a \<Rightarrow> thrown + 'b) \<Rightarrow> thrown + 'b" where
  "andThen r f = (case r of Inl e \<Rightarrow> Inl e | Inr x \<Rightarrow> f x)"

text \<open>A string the engine is asked to build.\<close>

definition newString :: "platform \<Rightarrow> string \<Rightarrow> thrown + string" where
  "newString env s =
     (if length s \<le> maxStringLength env then Inr s
      else Inl (ErrorInstance (invalidStringLength env)))"

text \<open>
  The counter \<open>(start + index * step).toString()\<close>. The engine computes on doubles, which
  hold every integer up to \<open>2 ^ 53\<close> in size exactly and print it in decimal digits; as long
  as the operands and both results stay in that range the counter is the integer's. Beyond
  it the doubles round, and the printed counter is the platform's.
\<close>

definition isExact :: "int \<Rightarrow> bool" where
  "isExact i = (\<bar>i\<bar> \<le> 2 ^ 53)"

definition counterString :: "platform \<Rightarrow> int \<Rightarrow> nat \<Rightarrow> int \<Rightarrow> string" where
  "counterString env start index step =
     (if isExact start \<and> isExact step \<and> isExact (int index * step)
         \<and> isExact (start + int index * step)
      then numberToString (start + int index * step)
      else inexactCounter env start index step)"

text \<open>\<open>new RegExp(p, f)\<close> followed by \<open>s.replace(regex, r)\<close>: inside \<open>try\<close>, where the \<open>catch\<close>
  returns the name unchanged whatever was thrown, and outside any \<open>try\<close>.\<close>

definition replaceOrKeep_bounded ::
  "platform \<Rightarrow> string \<Rightarrow> string \<Rightarrow> string \<Rightarrow> string \<Rightarrow> string" where
  "replaceOrKeep_bounded env p f s r =
     (case regExpError env p f of
        Some m \<Rightarrow> s
      | None \<Rightarrow> (case newString env (regExpReplace env p f s r) of Inl e \<Rightarrow> s | Inr x \<Rightarrow> x))"

definition replaceOrThrow_bounded ::
  "platform \<Rightarrow> string \<Rightarrow> string \<Rightarrow> string \<Rightarrow> string \<Rightarrow> thrown + string" where
  "replaceOrThrow_bounded env p f s r =
     (case regExpError env p f of
        Some m \<Rightarrow> Inl (ErrorInstance m)
      | None \<Rightarrow> newString env (regExpReplace env p f s r))"

definition applyFindReplace_bounded ::
  "platform \<Rightarrow> string \<Rightarrow> FindReplaceConfig \<Rightarrow> thrown + string" where
  "applyFindReplace_bounded env nm c =
     (if fr_find c = [] then Inr nm
      else if fr_useRegex c then
        (let flags = (if fr_caseSensitive c then ''g'' else ''gi'')
         in Inr (replaceOrKeep_bounded env (fr_find c)
                  (if fr_replaceAll c then flags else replaceStr flags ''g'' []) nm (fr_replace c)))
      else if fr_caseSensitive c then
        (if fr_replaceAll c then newString env (joinStr (splitStr nm (fr_find c)) (fr_replace c))
         else newString env (replaceStr nm (fr_find c) (fr_replace c)))
      else if fr_replaceAll c then
        andThen (newString env (escapeRegex (fr_find c)))
          (\<lambda>escaped. replaceOrThrow_bounded env escaped ''gi'' nm (fr_replace c))
      else
        andThen (newString env (escapeRegex (fr_find c)))
          (\<lambda>escaped. replaceOrThrow_bounded env escaped ''i'' nm (fr_replace c)))"

definition applyPrefixSuffix_bounded ::
  "platform \<Rightarrow> string \<Rightarrow> PrefixSuffixConfig \<Rightarrow> nat \<Rightarrow> thrown + string" where
  "applyPrefixSuffix_bounded env nm c index =
     andThen
       (if ps_addCounter c then
          andThen (padStart env
                     (counterString env (ps_counterStart c) index (ps_counterStep c))
                     (ps_counterPadding c))
            (\<lambda>paddedNum.
               andThen (newString env (replaceStr (ps_text c) ''[N]'' paddedNum))
                 (\<lambda>replaced.
                    let txt = (if replaced = [] then paddedNum else replaced)
                    in if \<not> strIncludes txt paddedNum then newString env (txt @ paddedNum)
                       else Inr txt))
        else Inr (ps_text c))
       (\<lambda>txt. if ps_position c = SidePrefix then newString env (txt @ nm)
              else newString env (nm @ txt))"

definition applyRemoveChars_bounded ::
  "platform \<Rightarrow> string \<Rightarrow> RemoveCharsConfig \<Rightarrow> thrown + string" where
  "applyRemoveChars_bounded env nm c =
     (case rc_mode c of
        FirstN \<Rightarrow> Inr (sliceFrom nm (rc_count c))
      | LastN \<Rightarrow> Inr (slice nm 0 (if - rc_count c = 0 then int (length nm) else - rc_count c))
      | CharRange \<Rightarrow> newString env (slice nm 0 (rc_startIndex c) @ sliceFrom nm (rc_endIndex c))
      | SpecificChars \<Rightarrow> Inr (filter (\<lambda>ch. ch \<notin> set (rc_characters c)) nm)
      | ByPattern \<Rightarrow> Inr (replaceOrKeep_bounded env (rc_pattern c) ''g'' nm []))"

definition applyCaseChange_bounded ::
  "platform \<Rightarrow> string \<Rightarrow> CaseChangeConfig \<Rightarrow> thrown + string" where
  "applyCaseChange_bounded env nm c =
     (case cc_caseType c of
        Uppercase \<Rightarrow> newString env (toUpperCase env nm)
      | Lowercase \<Rightarrow> newString env (toLowerCase env nm)
      | Titlecase \<Rightarrow>
          newString env
            (regExpReplaceFn env (backslash # ''w'' @ backslash # ''S*'') ''g'' nm
               (\<lambda>args. toUpperCase env (take 1 (hd args))
                        @ toLowerCase env (substringFrom (hd args) 1)))
      | Sentencecase \<Rightarrow>
          andThen (newString env (toUpperCase env (take 1 nm)))
            (\<lambda>first. andThen (newString env (toLowerCase env (sliceFrom nm 1)))
               (\<lambda>rest. newString env (first @ rest)))
      | CamelCase \<Rightarrow>
          andThen (newString env (toLowerCase env nm))
            (\<lambda>lower. newString env
               (regExpReplaceFn env ''[^a-zA-Z0-9]+(.)'' ''g'' lower
                  (\<lambda>args. toUpperCase env (args ! 1))))
      | SnakeCase \<Rightarrow>
          andThen (newString env (regExpReplace env (backslash # ''s+'') ''g'' nm ''_''))
            (\<lambda>a. andThen (newString env (regExpReplace env ''([a-z])([A-Z])'' ''g'' a ''$1_$2''))
               (\<lambda>b. andThen (newString env (regExpReplace env ''[^a-zA-Z0-9_]'' ''g'' b ''_''))
                  (\<lambda>d. newString env (toLowerCase env d))))
      | KebabCase \<Rightarrow>
          andThen (newString env (regExpReplace env (backslash # ''s+'') ''g'' nm ''-''))
            (\<lambda>a. andThen (newString env (regExpReplace env ''([a-z])([A-Z])'' ''g'' a ''$1-$2''))
               (\<lambda>b. andThen (newString env (regExpReplace env ''[^a-zA-Z0-9-]'' ''g'' b ''-''))
                  (\<lambda>d. newString env (toLowerCase env d)))))"

definition applyNumbering_bounded ::
  "platform \<Rightarrow> string \<Rightarrow> NumberingConfig \<Rightarrow> nat \<Rightarrow> thrown + string" where
  "applyNumbering_bounded env nm c index =
     andThen (padStart env (counterString env (nu_startNumber c) index (nu_step c))
                (nu_padding c))
       (\<lambda>paddedNum.
          andThen (newString env (replaceStr (nu_format c) ''[N]'' paddedNum))
            (\<lambda>formatted.
               case nu_position c of
                 PlacePrefix \<Rightarrow> newString env (formatted @ nu_separator c @ nm)
               | PlaceSuffix \<Rightarrow> newString env (nm @ nu_separator c @ formatted)
               | PlaceReplace \<Rightarrow> Inr formatted))"

definition formatDate_bounded :: "platform \<Rightarrow> JSDate \<Rightarrow> string \<Rightarrow> thrown + string" where
  "formatDate_bounded env date fmt =
     fold (\<lambda>(token, v) result. andThen result (\<lambda>s. newString env (replaceStr s token v)))
       [(''YYYY'', numberToString (getFullYear date)),
        (''YY'', sliceFrom (numberToString (getFullYear date)) (- 2)),
        (''MM'', padZeros (numberToString (getMonth date + 1)) 2),
        (''DD'', padZeros (numberToString (getDate date)) 2),
        (''HH'', padZeros (numberToString (getHours date)) 2),
        (''mm'', padZeros (numberToString (getMinutes date)) 2),
        (''ss'', padZeros (numberToString (getSeconds date)) 2)]
       (Inr fmt)"

definition applyDateTime_bounded ::
  "platform \<Rightarrow> JSDate \<Rightarrow> string \<Rightarrow> DateTimeConfig \<Rightarrow> File \<Rightarrow> thrown + string" where
  "applyDateTime_bounded env now nm c file =
     (let date = (case dt_source c of
                    Modified \<Rightarrow> newDate env (lastModified file)
                  | Created \<Rightarrow> newDate env (lastModified file)
                  | Current \<Rightarrow> now)
      in andThen (formatDate_bounded env date (dt_format c))
           (\<lambda>formatted.
              case dt_position c of
                PlacePrefix \<Rightarrow> newString env (formatted @ dt_separator c @ nm)
              | PlaceSuffix \<Rightarrow> newString env (nm @ dt_separator c @ formatted)
              | PlaceReplace \<Rightarrow> Inr formatted))"

definition applyRegex_bounded :: "platform \<Rightarrow> string \<Rightarrow> RegexConfig \<Rightarrow> string" where
  "applyRegex_bounded env nm c =
     (if re_pattern c = [] then nm
      else replaceOrKeep_bounded env (re_pattern c) (re_flags c) nm (re_replacement c))"

definition applyTrim_bounded :: "platform \<Rightarrow> string \<Rightarrow> TrimConfig \<Rightarrow> thrown + string" where
  "applyTrim_bounded env nm c =
     (let r1 = (if tr_trimSpaces c then trim nm else nm)
      in andThen (if tr_removeDuplicateSpaces c
                  then newString env (regExpReplace env (backslash # ''s+'') ''g'' r1 '' '')
                  else Inr r1)
           (\<lambda>r2.
              let r3 = (if tr_removeSpecialChars c \<and> tr_specialCharsToRemove c \<noteq> []
                        then filter (\<lambda>ch. ch \<notin> set (tr_specialCharsToRemove c)) r2 else r2)
              in if tr_replaceSpacesWith c \<noteq> []
                 then newString env
                        (regExpReplace env (backslash # ''s'') ''g'' r3 (tr_replaceSpacesWith c))
                 else Inr r3))"

definition applyExtension_bounded ::
  "platform \<Rightarrow> string \<Rightarrow> ExtensionConfig \<Rightarrow> thrown + string" where
  "applyExtension_bounded env ext c =
     (case ex_action c of
        Change \<Rightarrow>
          (if startsWith (ex_newExtension c) ''.'' then Inr (ex_newExtension c)
           else newString env (''.'' @ ex_newExtension c))
      | Add \<Rightarrow>
          andThen (if startsWith (ex_newExtension c) ''.'' then Inr (ex_newExtension c)
                   else newString env (''.'' @ ex_newExtension c))
            (\<lambda>dotted. newString env (ext @ dotted))
      | Remove \<Rightarrow> Inr []
      | ExtLowercase \<Rightarrow> newString env (toLowerCase env ext)
      | ExtUppercase \<Rightarrow> newString env (toUpperCase env ext))"

text \<open>The \<open>switch\<close> on the operation's type; \<open>Inl\<close> is an exception that leaves the
  transformer.\<close>

fun applyOperation_bounded ::
  "platform \<Rightarrow> JSDate \<Rightarrow> FileItem \<Rightarrow> nat \<Rightarrow> OperationConfig \<Rightarrow> string \<times> string
     \<Rightarrow> thrown + string \<times> string" where
  "applyOperation_bounded env now file index (FindReplace c) (nm, ext) =
     keepExt ext (applyFindReplace_bounded env nm c)"
| "applyOperation_bounded env now file index (Prefix c) (nm, ext) =
     keepExt ext (applyPrefixSuffix_bounded env nm c index)"
| "applyOperation_bounded env now file index (Suffix c) (nm, ext) =
     keepExt ext (applyPrefixSuffix_bounded env nm c index)"
| "applyOperation_bounded env now file index (RemoveChars c) (nm, ext) =
     keepExt ext (applyRemoveChars_bounded env nm c)"
| "applyOperation_bounded env now file index (CaseChange c) (nm, ext) =
     keepExt ext (applyCaseChange_bounded env nm c)"
| "applyOperation_bounded env now file index (Numbering c) (nm, ext) =
     keepExt ext (applyNumbering_bounded env nm c index)"
| "applyOperation_bounded env now file index (DateTime c) (nm, ext) =
     keepExt ext (applyDateTime_bounded env now nm c (originalFile file))"
| "applyOperation_bounded env now file index (Regex c) (nm, ext) =
     Inr (applyRegex_bounded env nm c, ext)"
| "applyOperation_bounded env now file index (Trim c) (nm, ext) =
     keepExt ext (applyTrim_bounded env nm c)"
| "applyOperation_bounded env now file index (Extension c) (nm, ext) =
     (case applyExtension_bounded env ext c of Inl e \<Rightarrow> Inl e | Inr ext' \<Rightarrow> Inr (nm, ext'))"

text \<open>
  The \<open>for\<close> loop over the pipeline. The outer \<open>Inl\<close> is an exception that leaves
  \<open>processFileName\<close>: the \<open>catch\<close> block builds its message with a template literal, outside
  any \<open>try\<close>. \<open>Inr (Inl r)\<close> is the early return of the \<open>catch\<close> block and \<open>Inr (Inr st)\<close> the
  base name and extension the loop ends with.
\<close>

fun runOperations_bounded ::
  "platform \<Rightarrow> (nat \<Rightarrow> JSDate) \<Rightarrow> FileItem \<Rightarrow> nat \<Rightarrow> nat \<Rightarrow> Operation list
     \<Rightarrow> string \<times> string \<Rightarrow> thrown + (NameResult + string \<times> string)" where
  "runOperations_bounded env clock file index k [] st = Inr (Inr st)"
| "runOperations_bounded env clock file index k (op # ops) st =
     (if \<not> enabled op then runOperations_bounded env clock file index (Suc k) ops st
      else case applyOperation_bounded env (clock k) file index (config op) st of
        Inl e \<Rightarrow>
          andThen (newString env (caughtMessage (config op) e))
            (\<lambda>message. Inr (Inl \<lparr>r_newName = originalName file, r_isValid = False,
                                  r_errorMessage = Some message\<rparr>))
      | Inr st' \<Rightarrow> runOperations_bounded env clock file index (Suc k) ops st')"

text \<open>\<open>processFileName\<close>: the loop, the recombination \<open>`${name}${extension}`\<close> after it, which
  stands outside the \<open>try\<close>, and the validation of the recombined name.\<close>

definition processFileName_bounded ::
  "platform \<Rightarrow> (nat \<Rightarrow> JSDate) \<Rightarrow> FileItem \<Rightarrow> Operation list \<Rightarrow> nat \<Rightarrow> thrown + NameResult" where
  "processFileName_bounded env clock file ops index =
     (case runOperations_bounded env clock file index 0 ops
             (baseName (originalName file), extension file) of
        Inl e \<Rightarrow> Inl e
      | Inr (Inl r) \<Rightarrow> Inr r
      | Inr (Inr (nm, ext)) \<Rightarrow>
          andThen (newString env (nm @ ext)) (\<lambda>recombined. Inr (validateName (nm, ext))))"

text \<open>\<open>Array.prototype.map\<close> calls its callback on the elements in order, and the first
  exception that leaves a call leaves \<open>map\<close>.\<close>

fun collect :: "(thrown + 'a) list \<Rightarrow> thrown + 'a list" where
  "collect [] = Inr []"
| "collect (r # rs) =
     (case r of
        Inl e \<Rightarrow> Inl e
      | Inr x \<Rightarrow> (case collect rs of Inl e \<Rightarrow> Inl e | Inr xs \<Rightarrow> Inr (x # xs)))"

definition processedFiles_bounded ::
  "platform \<Rightarrow> (nat \<Rightarrow> nat \<Rightarrow> JSDate) \<Rightarrow> Operation list \<Rightarrow> FileItem list
     \<Rightarrow> thrown + FileItem list" where
  "processedFiles_bounded env clock ops fs =
     collect
       (map (\<lambda>(index, file).
               case processFileName_bounded env (clock index) file ops index of
                 Inl e \<Rightarrow> Inl e
               | Inr result \<Rightarrow>
                   Inr (file\<lparr>newName := r_newName result, isValid := r_isValid result,
                             errorMessage := r_errorMessage result\<rparr>))
          (enumerate 0 fs))"

text \<open>\<open>processFiles\<close>: an exception in the first \<open>map\<close> leaves the action before its \<open>set\<close>,
  and the store stays as it was; otherwise the duplicate pass runs and the files are set.\<close>

definition processFiles_bounded ::
  "platform \<Rightarrow> (nat \<Rightarrow> nat \<Rightarrow> JSDate) \<Rightarrow> AppState \<Rightarrow> thrown + AppState" where
  "processFiles_bounded env clock s =
     (case processedFiles_bounded env clock (operations s) (files s) of
        Inl e \<Rightarrow> Inl e
      | Inr per \<Rightarrow> Inr (s\<lparr>files := markDuplicates per\<rparr>))"

section \<open>Sample values\<close>

text \<open>
  Short names for the concrete values the theorems below are evaluated at: a file as
  ingestion queues it, a store holding given files and a given pipeline, an operation as
  \<open>addOperation\<close> builds it, a preset, a platform with Chromium's string limit, the three
  derived fields of a queued file, and a date at midnight.
\<close>

abbreviation queued :: "string \<Rightarrow> string \<Rightarrow> FileItem" where
  "queued nm ext \<equiv>
     \<lparr>file_id = nm, originalFile = \<lparr>file_name = nm, lastModified = 0\<rparr>, originalName = nm,
      newName = nm, extension = ext, isValid = True, errorMessage = None\<rparr>"

abbreviation storeOf :: "FileItem list \<Rightarrow> Operation list \<Rightarrow> AppState" where
  "storeOf fs ops \<equiv>
     \<lparr>files = fs, operations = ops, history = [[]], historyIndex = 0, maxHistoryLength = 50\<rparr>"

abbreviation newOperation :: "string \<Rightarrow> OperationType \<Rightarrow> Operation" where
  "newOperation i t \<equiv> \<lparr>op_id = i, enabled = True, config = getDefaultConfig t\<rparr>"

abbreviation presetOf :: "Operation list \<Rightarrow> Preset" where
  "presetOf ops \<equiv>
     \<lparr>preset_id = ''p'', preset_name = ''n'', preset_description = ''d'', preset_icon = ''i'',
      preset_operations = ops\<rparr>"

abbreviation chromium :: "platform \<Rightarrow> platform" where
  "chromium env \<equiv>
     env\<lparr>maxStringLength := 536870888, invalidStringLength := ''Invalid string length''\<rparr>"

abbreviation outcome :: "FileItem \<Rightarrow> string \<times> bool \<times> string option" where
  "outcome f \<equiv> (newName f, isValid f, errorMessage f)"

abbreviation dateOf :: "int \<Rightarrow> int \<Rightarrow> int \<Rightarrow> JSDate" where
  "dateOf y m d \<equiv>
     \<lparr>getFullYear = y, getMonth = m, getDate = d, getHours = 0, getMinutes = 0, getSeconds = 0\<rparr>"

section \<open>Properties of the evaluation\<close>

text \<open>The recursive equations of the loops are unfolded only where a proof asks for them.\<close>

declare shiftWhile.simps [simp del]
declare digitsOf.simps [simp del]
declare splitFrom.simps [simp del]

lemma getOrZero_fold:
  "getOrZero (fold (\<lambda>file m. m(newName file \<mapsto> getOrZero m (newName file) + 1)) fs m) k
     = getOrZero m k + count_list (map newName fs) k"
  by (induction fs arbitrary: m) (auto simp: getOrZero_def)

lemma getOrZero_nameCount: "getOrZero (nameCount fs) k = count_list (map newName fs) k"
  unfolding nameCount_def by (rule trans [OF getOrZero_fold]) (simp add: getOrZero_def)

lemma shiftWhile_drop: "shiftWhile h m = drop (length h - m) h"
proof (induction h m rule: shiftWhile.induct)
  case (1 h m)
  show ?case
  proof (cases "length h > m")
    case True
    then have eq: "length h - m = Suc (length (tl h) - m)" by (cases h) auto
    have "shiftWhile h m = shiftWhile (tl h) m"
      using True by (subst shiftWhile.simps) simp
    also have "\<dots> = drop (length (tl h) - m) (tl h)" using 1 True by simp
    also have "\<dots> = drop (length h - m) h" unfolding eq by (simp add: drop_Suc)
    finally show ?thesis .
  next
    case False
    then show ?thesis by (subst shiftWhile.simps) simp
  qed
qed

lemma processFiles_nofiles: "files s = [] \<Longrightarrow> processFiles env clock s = s"
  by (simp add: processFiles_def processedFiles_def markDuplicates_def enumerate_eq_zip)

lemma files_processFiles:
  "files (processFiles env clock s) = markDuplicates (processedFiles env clock (operations s) (files s))"
  by (simp add: processFiles_def)

lemma processFiles_frame:
  "operations (processFiles env clock s) = operations s"
  "history (processFiles env clock s) = history s"
  "historyIndex (processFiles env clock s) = historyIndex s"
  "maxHistoryLength (processFiles env clock s) = maxHistoryLength s"
  by (simp_all add: processFiles_def)

lemma length_processedFiles: "length (processedFiles env clock ops fs) = length fs"
  by (simp add: processedFiles_def)

lemma nth_processedFiles:
  "i < length fs \<Longrightarrow>
   processedFiles env clock ops fs ! i =
     (fs ! i)\<lparr>newName := r_newName (processFileName env (clock i) (fs ! i) ops i),
              isValid := r_isValid (processFileName env (clock i) (fs ! i) ops i),
              errorMessage := r_errorMessage (processFileName env (clock i) (fs ! i) ops i)\<rparr>"
  by (simp add: processedFiles_def nth_enumerate_eq Let_def)

lemma length_markDuplicates: "length (markDuplicates fs) = length fs"
  by (simp add: markDuplicates_def)

lemma nth_markDuplicates:
  "i < length fs \<Longrightarrow>
   markDuplicates fs ! i =
     (if count_list (map newName fs) (newName (fs ! i)) > 1
      then (fs ! i)\<lparr>isValid := False, errorMessage := Some ''Duplicate filename''\<rparr>
      else fs ! i)"
  by (simp add: markDuplicates_def getOrZero_nameCount)

lemmas string_defs =
  lastIndexOf_def substring_def substringFrom_def slice_def sliceFrom_def relIndex_def
  startsWith_def strIncludes_def replaceStr_def trim_def isWhiteSpace_def
  numberToString_def digitsOf.simps padZeros_def toLength_def padStart_def backslash_def

lemmas evaluation_defs =
  processFileName_def baseName_def fileExtension_def validateName_def hasInvalidChars_def
  isInvalidChar_def keepExt_def caughtMessage_def processFiles_def processedFiles_def
  markDuplicates_def nameCount_def getOrZero_def enumerate_eq_zip

lemma runOperations_append:
  "runOperations env clock file index k (pre @ rest) st =
     (case runOperations env clock file index k pre st of
        Inl r \<Rightarrow> Inl r
      | Inr st' \<Rightarrow> runOperations env clock file index (k + length pre) rest st')"
  by (induction pre arbitrary: k st) (auto split: sum.splits)

lemma runOperations_disabled:
  "\<forall>op\<in>set ops. \<not> enabled op \<Longrightarrow> runOperations env clock file index k ops st = Inr st"
  by (induction ops arbitrary: k) auto

lemma baseName_fileExtension: "baseName nm @ fileExtension nm = nm"
  by (simp add: baseName_def fileExtension_def substring_def substringFrom_def)

lemma applyOperation_clock:
  "(\<forall>c. cfg = DateTime c \<longrightarrow> dt_source c \<noteq> Current) \<Longrightarrow>
   applyOperation env now1 file index cfg st = applyOperation env now2 file index cfg st"
  by (cases cfg; cases st) (auto simp: applyDateTime_def split: DateSource.splits)

lemma runOperations_clock:
  "\<forall>op\<in>set ops. enabled op \<longrightarrow> (\<forall>c. config op = DateTime c \<longrightarrow> dt_source c \<noteq> Current) \<Longrightarrow>
   runOperations env clock1 file index k ops st = runOperations env clock2 file index k ops st"
proof (induction ops arbitrary: k st)
  case Nil
  then show ?case by simp
next
  case (Cons op ops)
  show ?case
  proof (cases "enabled op")
    case False
    with Cons show ?thesis by simp
  next
    case True
    with Cons.prems have "\<forall>c. config op = DateTime c \<longrightarrow> dt_source c \<noteq> Current" by simp
    then have "applyOperation env (clock1 k) file index (config op) st
        = applyOperation env (clock2 k) file index (config op) st"
      by (rule applyOperation_clock)
    with True Cons show ?thesis by (simp split: sum.splits)
  qed
qed

lemma processFileName_clock:
  "\<forall>op\<in>set ops. enabled op \<longrightarrow> (\<forall>c. config op = DateTime c \<longrightarrow> dt_source c \<noteq> Current) \<Longrightarrow>
   processFileName env clock1 file ops index = processFileName env clock2 file ops index"
proof -
  assume a: "\<forall>op\<in>set ops. enabled op \<longrightarrow> (\<forall>c. config op = DateTime c \<longrightarrow> dt_source c \<noteq> Current)"
  have "runOperations env clock1 file index 0 ops (baseName (originalName file), extension file)
      = runOperations env clock2 file index 0 ops (baseName (originalName file), extension file)"
    by (rule runOperations_clock [OF a])
  then show ?thesis by (simp add: processFileName_def)
qed

lemma processFileName_disabled:
  "\<forall>op\<in>set ops. \<not> enabled op \<Longrightarrow>
   processFileName env clock file ops index
     = validateName (baseName (originalName file), extension file)"
  by (simp add: processFileName_def runOperations_disabled)

lemma validateName_newName: "r_newName (validateName (nm, ext)) = nm @ ext"
  by (simp add: validateName_def)

lemma validateName_isValid:
  "r_isValid (validateName (nm, ext)) = (\<not> hasInvalidChars (nm @ ext) \<and> trim nm \<noteq> [])"
  by (simp add: validateName_def)

lemma validateName_errorMessage:
  "r_errorMessage (validateName (nm, ext)) =
     (if hasInvalidChars (nm @ ext) then Some ''Filename contains invalid characters''
      else if trim nm = [] then Some ''Filename cannot be empty'' else None)"
  by (simp add: validateName_def)

subsection \<open>The duplicate pass\<close>

text \<open>
  Claim C6. After the per-file evaluation, \<open>processFiles\<close> counts every proposed name over the
  whole queue by exact string equality. A file whose proposed name is counted more than
  once ends invalid with the message \<open>Duplicate filename\<close>, whatever validity and message
  the per-file evaluation gave it; a file whose proposed name is counted once keeps the
  per-file result unchanged. Nothing exempts a proposed name that equals the original name.
\<close>

theorem duplicate_pass:
  "i < length (files s) \<Longrightarrow>
   (let per = processedFiles env clock (operations s) (files s);
        out = files (processFiles env clock s)
    in length out = length (files s) \<and>
       per ! i =
         (files s ! i)
           \<lparr>newName := r_newName (processFileName env (clock i) (files s ! i) (operations s) i),
            isValid := r_isValid (processFileName env (clock i) (files s ! i) (operations s) i),
            errorMessage :=
              r_errorMessage (processFileName env (clock i) (files s ! i) (operations s) i)\<rparr> \<and>
       out ! i =
         (if count_list (map newName per) (newName (per ! i)) > 1
          then (per ! i)\<lparr>isValid := False, errorMessage := Some ''Duplicate filename''\<rparr>
          else per ! i))"
proof -
  assume i: "i < length (files s)"
  have len: "length (markDuplicates (processedFiles env clock (operations s) (files s)))
      = length (files s)"
    by (simp add: markDuplicates_def length_processedFiles)
  have i': "i < length (processedFiles env clock (operations s) (files s))"
    using i by (simp add: length_processedFiles)
  show ?thesis
    unfolding Let_def processFiles_def
    using len nth_processedFiles [OF i, of env clock "operations s"] nth_markDuplicates [OF i']
    by simp
qed

text \<open>The theorem at three files of which two end with the proposed name \<open>photo.jpg\<close>, one
  of them unchanged by the pipeline.\<close>

theorem duplicate_pass_witness:
  "\<forall>env clock.
     map outcome
       (files (processFiles env clock
          (storeOf [queued ''aphoto.jpg'' ''.jpg'', queued ''photo.jpg'' ''.jpg'',
                    queued ''other.jpg'' ''.jpg'']
             [\<lparr>op_id = ''o1'', enabled = True,
               config = FindReplace \<lparr>fr_find = ''a'', fr_replace = [], fr_caseSensitive = True,
                 fr_useRegex = False, fr_replaceAll = False\<rparr>\<rparr>])))
     = [(''photo.jpg'', False, Some ''Duplicate filename''),
        (''photo.jpg'', False, Some ''Duplicate filename''),
        (''other.jpg'', True, None)]"
  (is "\<forall>env clock. map _ (files (processFiles env clock ?S)) = ?R")
proof (intro allI)
  fix env :: platform and clock :: "nat \<Rightarrow> nat \<Rightarrow> JSDate"
  have h: "0 < length (files ?S)" by simp
  show "map outcome (files (processFiles env clock ?S)) = ?R"
    using duplicate_pass [OF h, of env clock]
    by (simp add: evaluation_defs string_defs applyFindReplace_def)
qed

subsection \<open>Evaluation and the clock\<close>

text \<open>
  Claim C4, as amended. \<open>applyDateTime\<close> reads the clock (\<open>new Date()\<close>) and uses the reading
  when the source is \<open>current\<close>, so evaluation is a function of the files, the pipeline and
  the clock readings. For every file list and every pipeline in which no enabled
  date-time operation has the source \<open>current\<close>, two evaluations give the same result
  whatever the clock reads in either of them.
\<close>

theorem evaluation_clock_independent:
  "\<forall>op\<in>set (operations s).
      enabled op \<longrightarrow> (\<forall>c. config op = DateTime c \<longrightarrow> dt_source c \<noteq> Current) \<Longrightarrow>
   processFiles env clock1 s = processFiles env clock2 s"
proof -
  assume a: "\<forall>op\<in>set (operations s).
      enabled op \<longrightarrow> (\<forall>c. config op = DateTime c \<longrightarrow> dt_source c \<noteq> Current)"
  have "processedFiles env clock1 (operations s) (files s)
      = processedFiles env clock2 (operations s) (files s)"
  proof (rule nth_equalityI)
    show "length (processedFiles env clock1 (operations s) (files s))
        = length (processedFiles env clock2 (operations s) (files s))"
      by (simp add: length_processedFiles)
  next
    fix i
    assume "i < length (processedFiles env clock1 (operations s) (files s))"
    then have i: "i < length (files s)" by (simp add: length_processedFiles)
    have "processFileName env (clock1 i) (files s ! i) (operations s) i
        = processFileName env (clock2 i) (files s ! i) (operations s) i"
      by (rule processFileName_clock [OF a])
    then show "processedFiles env clock1 (operations s) (files s) ! i
        = processedFiles env clock2 (operations s) (files s) ! i"
      using i by (simp add: nth_processedFiles)
  qed
  then show ?thesis by (simp add: processFiles_def)
qed

text \<open>The theorem at a pipeline with an enabled date-time operation on the modification
  time and a disabled one on the current time.\<close>

theorem evaluation_clock_independent_witness:
  "\<forall>env clock1 clock2.
     processFiles env clock1
       (storeOf [queued ''a.txt'' ''.txt'']
          [\<lparr>op_id = ''o1'', enabled = True,
            config = DateTime \<lparr>dt_source = Modified, dt_format = ''YYYY'',
              dt_position = PlaceSuffix, dt_separator = ''-''\<rparr>\<rparr>,
           \<lparr>op_id = ''o2'', enabled = False, config = getDefaultConfig TDateTime\<rparr>])
     = processFiles env clock2
       (storeOf [queued ''a.txt'' ''.txt'']
          [\<lparr>op_id = ''o1'', enabled = True,
            config = DateTime \<lparr>dt_source = Modified, dt_format = ''YYYY'',
              dt_position = PlaceSuffix, dt_separator = ''-''\<rparr>\<rparr>,
           \<lparr>op_id = ''o2'', enabled = False, config = getDefaultConfig TDateTime\<rparr>])"
  (is "\<forall>env clock1 clock2. processFiles env clock1 ?S = _")
proof (intro allI)
  fix env :: platform and clock1 clock2 :: "nat \<Rightarrow> nat \<Rightarrow> JSDate"
  have "\<forall>op\<in>set (operations ?S).
      enabled op \<longrightarrow> (\<forall>c. config op = DateTime c \<longrightarrow> dt_source c \<noteq> Current)"
    by simp
  then show "processFiles env clock1 ?S = processFiles env clock2 ?S"
    by (rule evaluation_clock_independent)
qed

text \<open>
  Claim C4 as stated fails: the default date-time operation (source \<open>current\<close>) gives the
  same file two different names in two evaluations that read the clock on different days.
\<close>

lemma formatDate_new_years_eve: "formatDate (dateOf 2024 11 31) ''YYYY-MM-DD'' = ''2024-12-31''"
  by (simp add: formatDate_def string_defs)

lemma formatDate_new_year: "formatDate (dateOf 2025 0 1) ''YYYY-MM-DD'' = ''2025-01-01''"
  by (simp add: formatDate_def string_defs)

theorem evaluation_depends_on_clock:
  "\<forall>env.
     map outcome
       (files (processFiles env (\<lambda>i k. dateOf 2024 11 31)
          (storeOf [queued ''a.txt'' ''.txt''] [newOperation ''o1'' TDateTime])))
       = [(''2024-12-31_a.txt'', True, None)] \<and>
     map outcome
       (files (processFiles env (\<lambda>i k. dateOf 2025 0 1)
          (storeOf [queued ''a.txt'' ''.txt''] [newOperation ''o1'' TDateTime])))
       = [(''2025-01-01_a.txt'', True, None)]"
  by (simp add: evaluation_defs string_defs applyDateTime_def formatDate_new_years_eve
      formatDate_new_year)

subsection \<open>A pipeline with every operation disabled\<close>

text \<open>
  Claim C7, as amended. When every operation of the pipeline is disabled (or the pipeline is
  empty) and the queued files carry the extension that ingestion derives from their
  names, every file's proposed name is its original name, and a file is marked valid
  exactly when its original name has no illegal character, its base name is not blank
  and no other queued file has the same original name.
\<close>

theorem identity_under_disabled_pipeline:
  assumes dis: "\<forall>op\<in>set (operations s). \<not> enabled op"
    and ext: "\<forall>f\<in>set (files s). extension f = fileExtension (originalName f)"
    and i: "i < length (files s)"
  shows "newName (files (processFiles env clock s) ! i) = originalName (files s ! i) \<and>
    isValid (files (processFiles env clock s) ! i) =
      (\<not> hasInvalidChars (originalName (files s ! i)) \<and>
       trim (baseName (originalName (files s ! i))) \<noteq> [] \<and>
       count_list (map originalName (files s)) (originalName (files s ! i)) = 1)"
proof -
  let ?per = "processedFiles env clock (operations s) (files s)"
  have nm: "baseName (originalName f) @ extension f = originalName f" if "f \<in> set (files s)" for f
    using ext that by (simp add: baseName_fileExtension)
  have per: "?per ! j =
      (files s ! j)\<lparr>newName := originalName (files s ! j),
        isValid := (\<not> hasInvalidChars (originalName (files s ! j)) \<and>
                    trim (baseName (originalName (files s ! j))) \<noteq> []),
        errorMessage := r_errorMessage
          (validateName (baseName (originalName (files s ! j)), extension (files s ! j)))\<rparr>"
    if "j < length (files s)" for j
    using that nm [of "files s ! j"]
    by (simp add: nth_processedFiles processFileName_disabled [OF dis] validateName_newName
        validateName_isValid)
  have names: "map newName ?per = map originalName (files s)"
    by (rule nth_equalityI) (simp_all add: length_processedFiles per)
  have "originalName (files s ! i) \<in> set (map originalName (files s))"
    using i by simp
  then have cnt: "count_list (map originalName (files s)) (originalName (files s ! i)) \<noteq> 0"
    by (simp only: count_list_0_iff not_not)
  have i': "i < length ?per" using i by (simp add: length_processedFiles)
  have nmi: "newName (?per ! i) = originalName (files s ! i)"
    by (simp add: per [OF i])
  have out: "files (processFiles env clock s) ! i =
      (if count_list (map originalName (files s)) (originalName (files s ! i)) > 1
       then (?per ! i)\<lparr>isValid := False, errorMessage := Some ''Duplicate filename''\<rparr>
       else ?per ! i)"
    using nth_markDuplicates [OF i'] by (simp only: files_processFiles names nmi)
  show ?thesis
  proof (cases "count_list (map originalName (files s)) (originalName (files s ! i)) > 1")
    case True
    then show ?thesis by (simp add: out nmi)
  next
    case False
    with cnt have "count_list (map originalName (files s)) (originalName (files s ! i)) = 1"
      by arith
    with False show ?thesis by (simp add: out per [OF i])
  qed
qed

text \<open>The theorem at a queue of \<open>a.txt\<close> and \<open>.gitignore\<close> under a disabled numbering
  operation.\<close>

theorem identity_under_disabled_pipeline_witness:
  "\<forall>env clock.
     map outcome
       (files (processFiles env clock
          (storeOf [queued ''a.txt'' ''.txt'', queued ''.gitignore'' []]
             [\<lparr>op_id = ''o1'', enabled = False, config = getDefaultConfig TNumbering\<rparr>])))
     = [(''a.txt'', True, None), (''.gitignore'', True, None)]"
  (is "\<forall>env clock. map _ (files (processFiles env clock ?S)) = ?R")
proof (intro allI)
  fix env :: platform and clock :: "nat \<Rightarrow> nat \<Rightarrow> JSDate"
  have dis: "\<forall>op\<in>set (operations ?S). \<not> enabled op" by simp
  have ext: "\<forall>f\<in>set (files ?S). extension f = fileExtension (originalName f)"
    by (simp add: fileExtension_def string_defs)
  have "0 < length (files ?S)" and "1 < length (files ?S)" by simp_all
  then show "map outcome (files (processFiles env clock ?S)) = ?R"
    using identity_under_disabled_pipeline [OF dis ext, of 0 env clock]
      identity_under_disabled_pipeline [OF dis ext, of 1 env clock]
    by (simp add: evaluation_defs string_defs)
qed

text \<open>
  Claim C7 as stated fails: a file named \<open>a:b.txt\<close>, ingested into the initial store with its
  empty pipeline, keeps its name and is marked invalid for the colon.
\<close>

theorem invalid_original_under_empty_pipeline:
  "\<forall>env clock genId.
     operations
       (addFiles env clock genId [\<lparr>file_name = ''a:b.txt'', lastModified = 0\<rparr>] initialState)
     = [] \<and>
     map outcome
       (files
         (addFiles env clock genId [\<lparr>file_name = ''a:b.txt'', lastModified = 0\<rparr>] initialState))
     = [(''a:b.txt'', False, Some ''Filename contains invalid characters'')]"
  by (simp add: addFiles_def initialState_def evaluation_defs string_defs)

subsection \<open>An exception inside a transformer\<close>

lemma andThen_Inl [simp]: "andThen (Inl e) f = Inl e"
  by (simp add: andThen_def)

lemma andThen_Inr [simp]: "andThen (Inr x) f = f x"
  by (simp add: andThen_def)












lemma getSubstitution_plain:
  "CHR ''$'' \<notin> set r \<Longrightarrow> getSubstitution matched left right r = r"
  by (induction matched left right r rule: getSubstitution.induct) auto

lemmas bounded_defs =
  processFileName_bounded_def baseName_def keepExt_def caughtMessage_def
  applyPrefixSuffix_bounded_def applyNumbering_bounded_def counterString_def isExact_def
  newString_def padStart_def toLength_def padZeros_def numberToString_def digitsOf.simps
  replaceStr_def startsWith_def strIncludes_def lastIndexOf_def substring_def
  getSubstitution_plain





text \<open>
  What the \<open>catch\<close> block does not receive. The \<open>try\<close> of \<open>processFileName\<close> covers the \<open>switch\<close>
  over the transformers and not the recombination of base name and extension after the
  loop. On Chromium, under a numbering operation with a padding of 536870883, the
  transformer throws for the file \<open>abcdef\<close> and the \<open>catch\<close> block returns the invalid result
  with the original name. For the file \<open>b.txt\<close> the transformer returns a base name of
  536870885 code units, the recombination with \<open>.txt\<close> throws, and this exception of the
  second file's own evaluation leaves \<open>processFiles\<close> before it sets any file.
\<close>

theorem recombination_outside_the_try:
  "processFileName_bounded (chromium env) (clock 0) (queued ''abcdef'' [])
     [\<lparr>op_id = ''o1'', enabled = True,
       config = Numbering \<lparr>nu_position = PlacePrefix, nu_startNumber = 1, nu_step = 1,
         nu_padding = 536870883, nu_separator = ''_'', nu_format = ''[N]''\<rparr>\<rparr>] 0
     = Inr \<lparr>r_newName = ''abcdef'', r_isValid = False,
            r_errorMessage = Some ''Error in numbering: Invalid string length''\<rparr> \<and>
   processFileName_bounded (chromium env) (clock 1) (queued ''b.txt'' ''.txt'')
     [\<lparr>op_id = ''o1'', enabled = True,
       config = Numbering \<lparr>nu_position = PlacePrefix, nu_startNumber = 1, nu_step = 1,
         nu_padding = 536870883, nu_separator = ''_'', nu_format = ''[N]''\<rparr>\<rparr>] 1
     = Inl (ErrorInstance ''Invalid string length'') \<and>
   processFiles_bounded (chromium env) clock
     (storeOf [queued ''abcdef'' [], queued ''b.txt'' ''.txt'']
        [\<lparr>op_id = ''o1'', enabled = True,
          config = Numbering \<lparr>nu_position = PlacePrefix, nu_startNumber = 1, nu_step = 1,
            nu_padding = 536870883, nu_separator = ''_'', nu_format = ''[N]''\<rparr>\<rparr>])
     = Inl (ErrorInstance ''Invalid string length'')"
  (is "?A \<and> ?B \<and> ?C")
proof -
  have a: ?A by (simp add: bounded_defs)
  have b: ?B by (simp add: bounded_defs)
  have c: ?C
    by (simp add: processFiles_bounded_def processedFiles_bounded_def enumerate_eq_zip a
        b [unfolded One_nat_def])
  from a b c show ?thesis by simp
qed

subsection \<open>An empty target extension\<close>

lemma hasInvalidChars_append:
  "hasInvalidChars (a @ b) = (hasInvalidChars a \<or> hasInvalidChars b)"
  by (simp add: hasInvalidChars_def)

lemma hasInvalidChars_dot: "\<not> hasInvalidChars ''.''"
  by (simp add: hasInvalidChars_def isInvalidChar_def backslash_def)

lemma runOperations_snoc_extension:
  assumes "runOperations env clock file index 0 ops st0 = Inr (nm, ext0)"
  shows "runOperations env clock file index 0
           (ops @ [\<lparr>op_id = i, enabled = True, config = Extension c\<rparr>]) st0
         = Inr (nm, applyExtension env ext0 c)"
  using assms by (simp add: runOperations_append)

text \<open>
  Claim C10. \<open>applyExtension\<close> with the action \<open>change\<close> and an empty new extension returns the
  one-character string \<open>.\<close> for every current extension, and with the action \<open>add\<close> it
  appends \<open>.\<close> to the current extension. When such an operation ends a pipeline whose
  result was valid, the proposed name is the unchanged base name followed by the new
  extension, it ends in a dot, and it is still valid with no message.
\<close>

theorem extension_empty_target:
  "applyExtension env ext \<lparr>ex_action = Change, ex_newExtension = []\<rparr> = ''.'' \<and>
   applyExtension env ext \<lparr>ex_action = Add, ex_newExtension = []\<rparr> = ext @ ''.'' \<and>
   (\<forall>nm ext0.
      runOperations env clock file index 0 ops
          (baseName (originalName file), extension file) = Inr (nm, ext0) \<and>
      r_isValid (processFileName env clock file ops index) \<longrightarrow>
      processFileName env clock file
          (ops @ [\<lparr>op_id = i, enabled = True,
                   config = Extension \<lparr>ex_action = Change, ex_newExtension = []\<rparr>\<rparr>]) index
        = \<lparr>r_newName = nm @ ''.'', r_isValid = True, r_errorMessage = None\<rparr> \<and>
      processFileName env clock file
          (ops @ [\<lparr>op_id = i, enabled = True,
                   config = Extension \<lparr>ex_action = Add, ex_newExtension = []\<rparr>\<rparr>]) index
        = \<lparr>r_newName = nm @ ext0 @ ''.'', r_isValid = True, r_errorMessage = None\<rparr>)"
proof (intro conjI allI impI)
  show "applyExtension env ext \<lparr>ex_action = Change, ex_newExtension = []\<rparr> = ''.''"
    by (simp add: applyExtension_def startsWith_def)
  show "applyExtension env ext \<lparr>ex_action = Add, ex_newExtension = []\<rparr> = ext @ ''.''"
    by (simp add: applyExtension_def startsWith_def)
next
  fix nm ext0
  assume a: "runOperations env clock file index 0 ops
          (baseName (originalName file), extension file) = Inr (nm, ext0) \<and>
      r_isValid (processFileName env clock file ops index)"
  then have run: "runOperations env clock file index 0 ops
          (baseName (originalName file), extension file) = Inr (nm, ext0)" by simp
  have "processFileName env clock file ops index = validateName (nm, ext0)"
    by (simp add: processFileName_def run)
  with a have "r_isValid (validateName (nm, ext0))"
    by simp
  then have ok: "\<not> hasInvalidChars nm" "\<not> hasInvalidChars ext0" "trim nm \<noteq> []"
    by (simp_all add: validateName_isValid hasInvalidChars_append)
  show "processFileName env clock file
          (ops @ [\<lparr>op_id = i, enabled = True,
                   config = Extension \<lparr>ex_action = Change, ex_newExtension = []\<rparr>\<rparr>]) index
        = \<lparr>r_newName = nm @ ''.'', r_isValid = True, r_errorMessage = None\<rparr>"
    using ok hasInvalidChars_dot
    by (simp add: processFileName_def runOperations_snoc_extension [OF run] validateName_def
        hasInvalidChars_append applyExtension_def startsWith_def)
  show "processFileName env clock file
          (ops @ [\<lparr>op_id = i, enabled = True,
                   config = Extension \<lparr>ex_action = Add, ex_newExtension = []\<rparr>\<rparr>]) index
        = \<lparr>r_newName = nm @ ext0 @ ''.'', r_isValid = True, r_errorMessage = None\<rparr>"
    using ok hasInvalidChars_dot
    by (simp add: processFileName_def runOperations_snoc_extension [OF run] validateName_def
        hasInvalidChars_append applyExtension_def startsWith_def)
qed

text \<open>The theorem at the file \<open>a.txt\<close> and the pipeline that holds only the extension
  operation.\<close>

theorem extension_empty_target_witness:
  "\<forall>env clock.
     processFileName env clock (queued ''a.txt'' ''.txt'')
       ([] @ [\<lparr>op_id = ''o1'', enabled = True,
                config = Extension \<lparr>ex_action = Change, ex_newExtension = []\<rparr>\<rparr>]) 0
       = \<lparr>r_newName = ''a.'', r_isValid = True, r_errorMessage = None\<rparr> \<and>
     processFileName env clock (queued ''a.txt'' ''.txt'')
       ([] @ [\<lparr>op_id = ''o1'', enabled = True,
                config = Extension \<lparr>ex_action = Add, ex_newExtension = []\<rparr>\<rparr>]) 0
       = \<lparr>r_newName = ''a.txt.'', r_isValid = True, r_errorMessage = None\<rparr>"
  (is "\<forall>env clock. ?A env clock \<and> ?B env clock")
proof (intro allI)
  fix env :: platform and clock :: "nat \<Rightarrow> JSDate"
  let ?f = "queued ''a.txt'' ''.txt''"
  have run: "runOperations env clock ?f 0 0 [] (baseName (originalName ?f), extension ?f)
      = Inr (''a'', ''.txt'')"
    by (simp add: baseName_def string_defs)
  have ok: "r_isValid (processFileName env clock ?f [] 0)"
    by (simp add: evaluation_defs string_defs)
  show "?A env clock \<and> ?B env clock"
    using extension_empty_target [of env "[]" clock ?f 0 "[]" "''o1''"] run ok
    by simp
qed

section \<open>Properties of the history\<close>

lemma slice_take: "0 \<le> i \<Longrightarrow> slice xs 0 (i + 1) = take (nat i + 1) xs"
  by (simp add: slice_def relIndex_def nat_add_distrib min_def)

lemma pushToHistory_frame:
  "operations (pushToHistory s) = operations s"
  "files (pushToHistory s) = files s"
  "maxHistoryLength (pushToHistory s) = maxHistoryLength s"
  by (simp_all add: pushToHistory_def Let_def)

text \<open>
  \<open>pushToHistory\<close> keeps the first \<open>historyIndex + 1\<close> snapshots, appends the pipeline as it
  is when the mutation starts, drops entries from the front only as far as the list is
  longer than \<open>maxHistoryLength\<close> (50), and sets the index to the last position.
\<close>

theorem pushToHistory_truncates:
  "0 \<le> historyIndex s \<longrightarrow>
      history (pushToHistory s) =
        drop (length (take (nat (historyIndex s) + 1) (history s) @ [operations s])
                - maxHistoryLength s)
          (take (nat (historyIndex s) + 1) (history s) @ [operations s]) \<and>
      historyIndex (pushToHistory s) = int (length (history (pushToHistory s))) - 1 \<and>
      operations (pushToHistory s) = operations s \<and>
      (length (take (nat (historyIndex s) + 1) (history s) @ [operations s])
          \<le> maxHistoryLength s \<longrightarrow>
       history (pushToHistory s)
         = take (nat (historyIndex s) + 1) (history s) @ [operations s])"
proof (intro conjI impI)
  assume i: "0 \<le> historyIndex s"
  show h: "history (pushToHistory s) =
        drop (length (take (nat (historyIndex s) + 1) (history s) @ [operations s])
                - maxHistoryLength s)
          (take (nat (historyIndex s) + 1) (history s) @ [operations s])"
    using i by (simp add: pushToHistory_def Let_def shiftWhile_drop slice_take)
  show "historyIndex (pushToHistory s) = int (length (history (pushToHistory s))) - 1"
    by (simp add: pushToHistory_def Let_def)
  show "operations (pushToHistory s) = operations s"
    by (simp add: pushToHistory_frame)
  assume "length (take (nat (historyIndex s) + 1) (history s) @ [operations s])
          \<le> maxHistoryLength s"
  with h show "history (pushToHistory s)
         = take (nat (historyIndex s) + 1) (history s) @ [operations s]"
    by simp
qed

text \<open>The theorem at a history of three snapshots with the index on the second: the third
  snapshot is dropped and the live pipeline appended.\<close>

theorem pushToHistory_truncates_witness:
  "history (pushToHistory
      \<lparr>files = [], operations = [newOperation ''a'' TTrim],
       history = [[], [newOperation ''a'' TTrim],
                  [newOperation ''a'' TTrim, newOperation ''b'' TRegex]],
       historyIndex = 1, maxHistoryLength = 50\<rparr>)
     = [[], [newOperation ''a'' TTrim], [newOperation ''a'' TTrim]] \<and>
   historyIndex (pushToHistory
      \<lparr>files = [], operations = [newOperation ''a'' TTrim],
       history = [[], [newOperation ''a'' TTrim],
                  [newOperation ''a'' TTrim, newOperation ''b'' TRegex]],
       historyIndex = 1, maxHistoryLength = 50\<rparr>) = 2"
  (is "history (pushToHistory ?S) = ?H \<and> _")
proof -
  have "0 \<le> historyIndex ?S" by simp
  with pushToHistory_truncates [of ?S] show ?thesis by simp
qed

text \<open>
  Claim C2 does not hold of the code. From a history \<open>(P0, P1, P2)\<close> at index 2, whatever
  the file queue and the live pipeline, two undos lead to index 0 with the live pipeline \<open>P0\<close>. The mutation that then produces \<open>P3\<close> calls
  \<open>pushToHistory\<close> before it sets the pipeline, so the snapshot it appends is \<open>P0\<close> once
  more: the stack is \<open>(P0, P0)\<close> at index 1, not \<open>(P0, P3)\<close>, and \<open>P3\<close> is in no snapshot.
  \<open>P1\<close> and \<open>P2\<close> are discarded and redo is unavailable, but an undo followed by a redo
  then ends at \<open>P0\<close>: \<open>P3\<close> cannot be restored. The initial store, \<open>undo\<close> and \<open>redo\<close> all
  leave \<open>history[historyIndex]\<close> equal to the live pipeline, and a mutation, which saves the
  pipeline it is about to replace and not the one it produces, breaks that.
\<close>

theorem commit_after_undo_stack:
  "(let s = \<lparr>files = fs, operations = live, history = [P0, P1, P2], historyIndex = 2,
             maxHistoryLength = 50\<rparr>;
        undone = Option.bind (undo env c1 s) (undo env c2);
        committed = map_option (applyPreset env c3 p3) undone
    in map_option (\<lambda>t. (historyIndex t, operations t)) undone = Some (0, P0) \<and>
       map_option (\<lambda>t. (history t, historyIndex t, operations t, canRedo t)) committed
         = Some ([P0, P0], 1, preset_operations p3, False) \<and>
       map_option operations (Option.bind (Option.bind committed (undo env c4)) (redo env c5))
         = Some P0)"
  by (simp add: Let_def undo_def redo_def canRedo_def applyPreset_def pushToHistory_def
      processFiles_frame shiftWhile_drop slice_def relIndex_def)


text \<open>
  Claim C1 does not hold of the code. \<open>pushToHistory\<close> stores the pipeline as it is before
  a mutation, so the pipeline a mutation produces is in no snapshot, and \<open>undo\<close> loads the
  snapshot below the last one. From the initial store, after three presets that set the
  pipeline to \<open>P0\<close>, \<open>P1\<close> and \<open>P2\<close>, the snapshots are \<open>([], [], P0, P1)\<close> at index 3: the
  first undo restores \<open>P0\<close> (not \<open>P1\<close>), the second restores the empty pipeline and leaves
  undo available, and the two redos that follow end at \<open>P1\<close> with redo unavailable, so
  \<open>P2\<close> is lost.
\<close>

theorem undo_skips_the_live_pipeline:
  "history (applyPreset env c2 p2 (applyPreset env c1 p1 (applyPreset env c0 p0 initialState)))
     = [[], [], preset_operations p0, preset_operations p1] \<and>
   historyIndex (applyPreset env c2 p2 (applyPreset env c1 p1 (applyPreset env c0 p0 initialState)))
     = 3 \<and>
   operations (applyPreset env c2 p2 (applyPreset env c1 p1 (applyPreset env c0 p0 initialState)))
     = preset_operations p2 \<and>
   map_option operations
     (undo env c3
       (applyPreset env c2 p2 (applyPreset env c1 p1 (applyPreset env c0 p0 initialState))))
     = Some (preset_operations p0) \<and>
   map_option (\<lambda>s. (operations s, canUndo s))
     (Option.bind
       (undo env c3
         (applyPreset env c2 p2 (applyPreset env c1 p1 (applyPreset env c0 p0 initialState))))
       (undo env c4))
     = Some ([], True) \<and>
   map_option (\<lambda>s. (operations s, canRedo s))
     (Option.bind (Option.bind (Option.bind
       (undo env c3
         (applyPreset env c2 p2 (applyPreset env c1 p1 (applyPreset env c0 p0 initialState))))
       (undo env c4)) (redo env c5)) (redo env c6))
     = Some (preset_operations p1, False)"
proof -
  let ?s2 = "applyPreset env c2 p2 (applyPreset env c1 p1 (applyPreset env c0 p0 initialState))"
  have s2: "?s2 = \<lparr>files = [], operations = preset_operations p2,
      history = [[], [], preset_operations p0, preset_operations p1], historyIndex = 3,
      maxHistoryLength = 50\<rparr>"
    by (simp add: applyPreset_def pushToHistory_def initialState_def processFiles_nofiles
        shiftWhile_drop slice_def relIndex_def)
  show ?thesis
    unfolding s2
    by (simp add: undo_def redo_def canUndo_def canRedo_def processFiles_nofiles)
qed

subsection \<open>The index stays inside the history\<close>

lemma length_pushToHistory:
  assumes "0 \<le> historyIndex s"
  shows "length (history (pushToHistory s))
    = min (min (nat (historyIndex s) + 1) (length (history s)) + 1) (maxHistoryLength s)"
  using assms by (simp add: pushToHistory_def Let_def shiftWhile_drop slice_take) arith

lemma mutation_history:
  "history (addOperation env c newId t s) = history (pushToHistory s)"
  "historyIndex (addOperation env c newId t s) = historyIndex (pushToHistory s)"
  "history (updateOperation env c i merge s) = history (pushToHistory s)"
  "historyIndex (updateOperation env c i merge s) = historyIndex (pushToHistory s)"
  "history (removeOperation env c i s) = history (pushToHistory s)"
  "historyIndex (removeOperation env c i s) = historyIndex (pushToHistory s)"
  "history (toggleOperation env c i s) = history (pushToHistory s)"
  "historyIndex (toggleOperation env c i s) = historyIndex (pushToHistory s)"
  "history (clearOperations env c s) = history (pushToHistory s)"
  "historyIndex (clearOperations env c s) = historyIndex (pushToHistory s)"
  "history (applyPreset env c p s) = history (pushToHistory s)"
  "historyIndex (applyPreset env c p s) = historyIndex (pushToHistory s)"
  by (simp_all add: addOperation_def updateOperation_def removeOperation_def toggleOperation_def
      clearOperations_def applyPreset_def Let_def processFiles_frame)

text \<open>
  In a store whose index points into a history of at most \<open>maxHistoryLength\<close> snapshots,
  \<open>pushToHistory\<close> leaves a history of at most \<open>maxHistoryLength\<close> snapshots with the index
  on its last entry, and \<open>undo\<close> and \<open>redo\<close> return a store (they do not throw) with the same
  history and an index that points into it. The pipeline mutations leave the history and
  index of \<open>pushToHistory\<close> (\<open>mutation_history\<close>).
\<close>

theorem history_index_in_range:
  assumes lo: "0 \<le> historyIndex s"
    and hi: "nat (historyIndex s) < length (history s)"
    and len: "length (history s) \<le> maxHistoryLength s"
  shows "0 \<le> historyIndex (pushToHistory s) \<and>
         nat (historyIndex (pushToHistory s)) < length (history (pushToHistory s)) \<and>
         length (history (pushToHistory s)) \<le> maxHistoryLength s \<and>
         maxHistoryLength (pushToHistory s) = maxHistoryLength s \<and>
         (\<exists>u. undo env c s = Some u \<and> history u = history s \<and>
              0 \<le> historyIndex u \<and> nat (historyIndex u) < length (history u)) \<and>
         (\<exists>r. redo env c s = Some r \<and> history r = history s \<and>
              0 \<le> historyIndex r \<and> nat (historyIndex r) < length (history r))"
proof -
  have l: "length (history (pushToHistory s))
      = min (nat (historyIndex s) + 2) (maxHistoryLength s)"
    using length_pushToHistory [OF lo] hi by simp
  have pos: "0 < length (history (pushToHistory s))"
    using l hi len by simp
  have idx: "historyIndex (pushToHistory s) = int (length (history (pushToHistory s))) - 1"
    by (simp add: pushToHistory_def Let_def)
  have push: "0 \<le> historyIndex (pushToHistory s) \<and>
         nat (historyIndex (pushToHistory s)) < length (history (pushToHistory s)) \<and>
         length (history (pushToHistory s)) \<le> maxHistoryLength s \<and>
         maxHistoryLength (pushToHistory s) = maxHistoryLength s"
  proof -
    let ?n = "length (history (pushToHistory s))"
    have "0 \<le> int ?n - 1" using pos by arith
    moreover have "nat (int ?n - 1) < ?n" using pos by arith
    moreover have "?n \<le> maxHistoryLength s" using l by simp
    ultimately show ?thesis by (simp add: idx pushToHistory_frame)
  qed
  have u: "\<exists>u. undo env c s = Some u \<and> history u = history s \<and>
              0 \<le> historyIndex u \<and> nat (historyIndex u) < length (history u)"
    using lo hi by (auto simp: undo_def Let_def processFiles_frame)
  have r: "\<exists>r. redo env c s = Some r \<and> history r = history s \<and>
              0 \<le> historyIndex r \<and> nat (historyIndex r) < length (history r)"
    using lo hi by (auto simp: redo_def Let_def processFiles_frame)
  from push u r show ?thesis by blast
qed

text \<open>The theorem at the initial store.\<close>

theorem history_index_in_range_witness:
  "\<forall>env c.
     history (pushToHistory initialState) = [[], []] \<and>
     historyIndex (pushToHistory initialState) = 1 \<and>
     undo env c initialState = Some initialState \<and>
     redo env c initialState = Some initialState"
proof (intro allI)
  fix env :: platform and c :: "nat \<Rightarrow> nat \<Rightarrow> JSDate"
  have lo: "0 \<le> historyIndex initialState"
    and hi: "nat (historyIndex initialState) < length (history initialState)"
    and len: "length (history initialState) \<le> maxHistoryLength initialState"
    by (simp_all add: initialState_def)
  from history_index_in_range [OF lo hi len, of env c]
  show "history (pushToHistory initialState) = [[], []] \<and>
     historyIndex (pushToHistory initialState) = 1 \<and>
     undo env c initialState = Some initialState \<and>
     redo env c initialState = Some initialState"
    by (simp add: pushToHistory_def initialState_def undo_def redo_def shiftWhile_drop
        slice_def relIndex_def)
qed

section \<open>Properties of ingestion\<close>

lemma originalName_processedFiles:
  "map originalName (processedFiles env clock ops fs) = map originalName fs"
  by (rule nth_equalityI) (simp_all add: length_processedFiles nth_processedFiles)

lemma extension_processedFiles:
  "map extension (processedFiles env clock ops fs) = map extension fs"
  by (rule nth_equalityI) (simp_all add: length_processedFiles nth_processedFiles)

lemma originalName_markDuplicates: "map originalName (markDuplicates fs) = map originalName fs"
  by (simp add: markDuplicates_def)

lemma extension_markDuplicates: "map extension (markDuplicates fs) = map extension fs"
  by (simp add: markDuplicates_def)

lemma originalName_processFiles:
  "map originalName (files (processFiles env clock s)) = map originalName (files s)"
  by (simp add: files_processFiles originalName_markDuplicates originalName_processedFiles)

lemma extension_processFiles:
  "map extension (files (processFiles env clock s)) = map extension (files s)"
  by (simp add: files_processFiles extension_markDuplicates extension_processedFiles)

text \<open>
  \<open>addFiles\<close> keeps the queued entries in their order and appends, in the order of the
  batch, the incoming files whose name is not the original name of an entry queued
  before the call; a file whose name is queued is dropped, not replaced.
\<close>

theorem addFiles_keeps_queue_and_skips_queued_names:
  "map originalName (files (addFiles env clock genId newFiles s)) =
     map originalName (files s)
       @ filter (\<lambda>n. n \<notin> set (map originalName (files s))) (map file_name newFiles)"
proof -
  have "map originalName
      (map (\<lambda>(k, file).
              \<lparr>file_id = genId k, originalFile = file, originalName = file_name file,
               newName = file_name file, extension = fileExtension (file_name file),
               isValid = True, errorMessage = None\<rparr>)
         (enumerate 0 (filter (\<lambda>f. file_name f \<notin> set (map originalName (files s))) newFiles)))
      = map file_name (filter (\<lambda>f. file_name f \<notin> set (map originalName (files s))) newFiles)"
    by (rule nth_equalityI) (simp_all add: nth_enumerate_eq)
  then show ?thesis
    by (simp add: addFiles_def Let_def originalName_processFiles filter_map comp_def)
qed

text \<open>
  Claim C3 does not hold of the code. \<open>addFiles\<close> filters the incoming files against the
  names queued before the call only: two files named \<open>a.txt\<close> that arrive in one batch
  are both queued, and the duplicate pass marks both.
\<close>

theorem same_name_twice_in_one_batch:
  "map (\<lambda>f. (originalName f, isValid f, errorMessage f))
     (files (addFiles env clock genId
        [\<lparr>file_name = ''a.txt'', lastModified = 1\<rparr>, \<lparr>file_name = ''a.txt'', lastModified = 2\<rparr>]
        initialState))
   = [(''a.txt'', False, Some ''Duplicate filename''),
      (''a.txt'', False, Some ''Duplicate filename'')]"
  by (simp add: addFiles_def initialState_def evaluation_defs string_defs)

lemma processFiles_member:
  assumes "f \<in> set (files (processFiles env clock s))"
  shows "\<exists>g\<in>set (files s). originalName f = originalName g \<and> extension f = extension g"
proof -
  let ?per = "processedFiles env clock (operations s) (files s)"
  from assms obtain i where i: "i < length (markDuplicates ?per)" and f: "f = markDuplicates ?per ! i"
    by (auto simp: in_set_conv_nth files_processFiles)
  from i have i': "i < length (files s)"
    by (simp add: length_markDuplicates length_processedFiles)
  then have i'': "i < length ?per" by (simp add: length_processedFiles)
  have "originalName f = originalName (files s ! i) \<and> extension f = extension (files s ! i)"
    unfolding f by (simp add: nth_markDuplicates [OF i''] nth_processedFiles [OF i'])
  with i' show ?thesis by (intro bexI [of _ "files s ! i"]) simp_all
qed

text \<open>
  Every queued file carries the extension that \<open>addFiles\<close> derives from its name (the text
  from the last dot on, empty when the name has no dot or only a leading one): \<open>addFiles\<close>
  keeps this true of the queue.
\<close>

theorem addFiles_extension_invariant:
  assumes "\<forall>f\<in>set (files s). extension f = fileExtension (originalName f)"
  shows "\<forall>f\<in>set (files (addFiles env clock genId newFiles s)).
           extension f = fileExtension (originalName f)"
proof
  fix f
  let ?new = "map (\<lambda>(k, file).
              \<lparr>file_id = genId k, originalFile = file, originalName = file_name file,
               newName = file_name file, extension = fileExtension (file_name file),
               isValid = True, errorMessage = None\<rparr>)
         (enumerate 0 (filter (\<lambda>f. file_name f \<notin> set (map originalName (files s))) newFiles))"
  assume "f \<in> set (files (addFiles env clock genId newFiles s))"
  then have "f \<in> set (files (processFiles env clock (s\<lparr>files := files s @ ?new\<rparr>)))"
    by (simp add: addFiles_def Let_def)
  then obtain g where g: "g \<in> set (files s @ ?new)"
      and eq: "originalName f = originalName g" "extension f = extension g"
    using processFiles_member [of f env clock "s\<lparr>files := files s @ ?new\<rparr>"] by auto
  from g have "extension g = fileExtension (originalName g)"
    using assms by auto
  with eq show "extension f = fileExtension (originalName f)" by simp
qed

text \<open>The theorem at a batch of \<open>a.tar.gz\<close> and \<open>.gitignore\<close> ingested into the initial store.\<close>

theorem addFiles_extension_invariant_witness:
  "\<forall>env clock genId.
     map (\<lambda>f. (originalName f, extension f))
       (files (addFiles env clock genId
          [\<lparr>file_name = ''a.tar.gz'', lastModified = 0\<rparr>,
           \<lparr>file_name = ''.gitignore'', lastModified = 0\<rparr>] initialState))
     = [(''a.tar.gz'', ''.gz''), (''.gitignore'', [])]"
proof (intro allI)
  fix env :: platform and clock :: "nat \<Rightarrow> nat \<Rightarrow> JSDate" and genId :: "nat \<Rightarrow> string"
  have "\<forall>f\<in>set (files initialState). extension f = fileExtension (originalName f)"
    by (simp add: initialState_def)
  from addFiles_extension_invariant [OF this, of env clock genId
      "[\<lparr>file_name = ''a.tar.gz'', lastModified = 0\<rparr>, \<lparr>file_name = ''.gitignore'', lastModified = 0\<rparr>]"]
  show "map (\<lambda>f. (originalName f, extension f))
       (files (addFiles env clock genId
          [\<lparr>file_name = ''a.tar.gz'', lastModified = 0\<rparr>,
           \<lparr>file_name = ''.gitignore'', lastModified = 0\<rparr>] initialState))
     = [(''a.tar.gz'', ''.gz''), (''.gitignore'', [])]"
    by (simp add: addFiles_def initialState_def evaluation_defs string_defs)
qed

section \<open>Properties of two transformers\<close>

subsection \<open>The counter of a prefix or suffix\<close>

lemma strIncludes_middle: "strIncludes (a @ p @ b) p"
proof (induction a)
  case Nil
  show ?case
  proof (cases "p @ b")
    case Nil
    then show ?thesis by (simp add: strIncludes_def)
  next
    case (Cons c cs)
    have "startsWith (p @ b) p" by (simp add: startsWith_def)
    then show ?thesis using Cons by (simp add: strIncludes_def)
  qed
next
  case (Cons x a)
  then show ?case by (simp add: strIncludes_def)
qed

lemma strIncludes_self: "strIncludes p p"
  using strIncludes_middle [of "[]" p "[]"] by simp

lemma digitsOf_chars: "set (digitsOf n) \<subseteq> set ''0123456789''"
proof (induction n rule: digitsOf.induct)
  case (1 n)
  have d: "''0123456789'' ! k \<in> set ''0123456789''" if "k < 10" for k
    using that by (intro nth_mem) simp
  show ?case
  proof (cases "n < 10")
    case True
    then show ?thesis using d [of n] by (subst digitsOf.simps) simp
  next
    case False
    have "n mod 10 < 10" by simp
    then show ?thesis
      using False 1 d [of "n mod 10"] by (subst digitsOf.simps) simp
  qed
qed

lemma digitsOf_nonempty: "digitsOf n \<noteq> []"
  by (subst digitsOf.simps) simp

lemma numberToString_chars: "CHR ''$'' \<notin> set (numberToString i)"
  using digitsOf_chars [of "nat i"] digitsOf_chars [of "nat (- i)"]
  by (auto simp: numberToString_def)

lemma numberToString_nonempty: "numberToString i \<noteq> []"
  by (simp add: numberToString_def digitsOf_nonempty)

lemma padStart_result:
  assumes "padStart env (numberToString i) k = Inr pad"
  shows "CHR ''$'' \<notin> set pad" and "pad \<noteq> []"
  using assms numberToString_chars [of i] numberToString_nonempty [of i]
  by (auto simp: padStart_def padZeros_def split: if_splits)

lemma replaceStr_token:
  assumes "CHR ''$'' \<notin> set pad"
  shows "replaceStr txt tok pad =
    (case indexOf txt tok of
       None \<Rightarrow> txt
     | Some i \<Rightarrow> take i txt @ pad @ drop (i + length tok) txt)"
  using assms by (simp add: replaceStr_def getSubstitution_plain split: option.splits)

text \<open>
  With \<open>addCounter\<close> set and a padded counter that fits a string, \<open>applyPrefixSuffix\<close> puts the
  counter in place of the first \<open>[N]\<close> of the text when the text has one; otherwise it
  appends the counter to the text unless the text already contains the counter's
  characters, in which case the text stays as it is. The result goes before the name
  for the position \<open>prefix\<close> and after it for \<open>suffix\<close>.
\<close>

theorem prefix_suffix_counter:
  assumes pad: "padStart env (numberToString (ps_counterStart c + int index * ps_counterStep c))
                  (ps_counterPadding c) = Inr pad"
    and cnt: "ps_addCounter c"
  shows "applyPrefixSuffix env nm c index =
    Inr (if ps_position c = SidePrefix
         then (case indexOf (ps_text c) ''[N]'' of
                 Some i \<Rightarrow> take i (ps_text c) @ pad @ drop (i + 3) (ps_text c)
               | None \<Rightarrow> if strIncludes (ps_text c) pad then ps_text c else ps_text c @ pad) @ nm
         else nm @
              (case indexOf (ps_text c) ''[N]'' of
                 Some i \<Rightarrow> take i (ps_text c) @ pad @ drop (i + 3) (ps_text c)
               | None \<Rightarrow> if strIncludes (ps_text c) pad then ps_text c else ps_text c @ pad))"
proof -
  from padStart_result [OF pad] have plain: "CHR ''$'' \<notin> set pad" and ne: "pad \<noteq> []" .
  let ?replaced = "replaceStr (ps_text c) ''[N]'' pad"
  let ?txt = "if ?replaced = [] then pad else ?replaced"
  let ?final = "if \<not> strIncludes ?txt pad then ?txt @ pad else ?txt"
  have final: "?final =
      (case indexOf (ps_text c) ''[N]'' of
         Some i \<Rightarrow> take i (ps_text c) @ pad @ drop (i + 3) (ps_text c)
       | None \<Rightarrow> if strIncludes (ps_text c) pad then ps_text c else ps_text c @ pad)"
  proof (cases "indexOf (ps_text c) ''[N]''")
    case None
    then have r: "?replaced = ps_text c" by (simp add: replaceStr_token [OF plain])
    show ?thesis
    proof (cases "ps_text c = []")
      case True
      with None r ne show ?thesis
        using strIncludes_self [of pad] by (simp add: strIncludes_def)
    next
      case False
      with None r show ?thesis by simp
    qed
  next
    case (Some i)
    then have r: "?replaced = take i (ps_text c) @ pad @ drop (i + 3) (ps_text c)"
      by (simp add: replaceStr_token [OF plain] numeral_3_eq_3)
    with ne have "?replaced \<noteq> []" by simp
    moreover have "strIncludes ?replaced pad"
      unfolding r by (rule strIncludes_middle)
    ultimately show ?thesis using Some r by simp
  qed
  have "applyPrefixSuffix env nm c index =
      Inr (if ps_position c = SidePrefix then ?final @ nm else nm @ ?final)"
    using pad cnt by (simp add: applyPrefixSuffix_def Let_def)
  then show ?thesis by (simp only: final)
qed

text \<open>The theorem at the fifth file, for a text with the token and for a text without it.\<close>

theorem prefix_suffix_counter_witness:
  "\<forall>env.
     applyPrefixSuffix (chromium env) ''pilot''
       \<lparr>ps_text = ''Ep[N]-'', ps_position = SidePrefix, ps_addCounter = True,
        ps_counterStart = 1, ps_counterPadding = 2, ps_counterStep = 1\<rparr> 4 = Inr ''Ep05-pilot'' \<and>
     applyPrefixSuffix (chromium env) ''pilot''
       \<lparr>ps_text = ''_'', ps_position = SideSuffix, ps_addCounter = True,
        ps_counterStart = 1, ps_counterPadding = 2, ps_counterStep = 1\<rparr> 4 = Inr ''pilot_05''"
proof (intro allI)
  fix env :: platform
  let ?c = "\<lambda>t p. \<lparr>ps_text = t, ps_position = p, ps_addCounter = True,
        ps_counterStart = 1, ps_counterPadding = 2, ps_counterStep = 1\<rparr>"
  have pad: "padStart (chromium env) (numberToString (1 + int 4 * 1)) 2 = Inr ''05''"
    by (simp add: string_defs)
  show "applyPrefixSuffix (chromium env) ''pilot'' (?c ''Ep[N]-'' SidePrefix) 4
        = Inr ''Ep05-pilot'' \<and>
     applyPrefixSuffix (chromium env) ''pilot'' (?c ''_'' SideSuffix) 4 = Inr ''pilot_05''"
    using prefix_suffix_counter [of "chromium env" "?c ''Ep[N]-'' SidePrefix" 4 "''05''" "''pilot''"]
      prefix_suffix_counter [of "chromium env" "?c ''_'' SideSuffix" 4 "''05''" "''pilot''"] pad
    by (simp add: string_defs)
qed

text \<open>
  Claim C8 does not hold of the code. Without the token \<open>[N]\<close> in the text, \<open>applyPrefixSuffix\<close>
  appends the counter only if the text does not already contain the counter's digits.
  With the configuration of the preset \<open>Episode Format\<close> (text \<open>S01E\<close>, start 1, padding
  2, step 1) the counter of the first file is \<open>01\<close>, which occurs in \<open>S01E\<close>: the first
  file gets \<open>S01E\<close> with no counter, the second \<open>S01E02\<close>.
\<close>

theorem episode_counter_not_appended:
  "applyPrefixSuffix (chromium env) ''pilot''
     \<lparr>ps_text = ''S01E'', ps_position = SidePrefix, ps_addCounter = True,
      ps_counterStart = 1, ps_counterPadding = 2, ps_counterStep = 1\<rparr> 0 = Inr ''S01Epilot'' \<and>
   applyPrefixSuffix (chromium env) ''second''
     \<lparr>ps_text = ''S01E'', ps_position = SidePrefix, ps_addCounter = True,
      ps_counterStart = 1, ps_counterPadding = 2, ps_counterStep = 1\<rparr> 1 = Inr ''S01E02second''"
  by (simp add: applyPrefixSuffix_def string_defs)

subsection \<open>Removing characters\<close>

text \<open>
  \<open>applyRemoveChars\<close> in its five modes, for counts and indexes that are not negative and a
  start index that is not after the end index: the first \<open>N\<close> characters are dropped; the
  last \<open>N\<close> are dropped, none for \<open>N = 0\<close>; the characters at the indexes from \<open>startIndex\<close>
  up to but not including \<open>endIndex\<close> are dropped; every occurrence of a listed character
  is dropped; every match of the pattern is dropped, and a pattern that does not compile
  leaves the name as it is.
\<close>

theorem remove_chars_modes:
  "(rc_mode c = FirstN \<and> 0 \<le> rc_count c \<longrightarrow>
      applyRemoveChars env nm c = drop (nat (rc_count c)) nm) \<and>
   (rc_mode c = LastN \<and> 0 \<le> rc_count c \<longrightarrow>
      applyRemoveChars env nm c = take (length nm - nat (rc_count c)) nm) \<and>
   (rc_mode c = CharRange \<and> 0 \<le> rc_startIndex c \<and> rc_startIndex c \<le> rc_endIndex c \<longrightarrow>
      applyRemoveChars env nm c
        = take (nat (rc_startIndex c)) nm @ drop (nat (rc_endIndex c)) nm) \<and>
   (rc_mode c = SpecificChars \<longrightarrow>
      applyRemoveChars env nm c = filter (\<lambda>ch. ch \<notin> set (rc_characters c)) nm) \<and>
   (rc_mode c = ByPattern \<longrightarrow>
      applyRemoveChars env nm c =
        (case regExpError env (rc_pattern c) ''g'' of
           Some m \<Rightarrow> nm
         | None \<Rightarrow> regExpReplace env (rc_pattern c) ''g'' nm []))"
proof (intro conjI impI)
  assume "rc_mode c = FirstN \<and> 0 \<le> rc_count c"
  then show "applyRemoveChars env nm c = drop (nat (rc_count c)) nm"
    by (simp add: applyRemoveChars_def sliceFrom_def relIndex_def min_def)
next
  assume a: "rc_mode c = LastN \<and> 0 \<le> rc_count c"
  show "applyRemoveChars env nm c = take (length nm - nat (rc_count c)) nm"
  proof (cases "rc_count c = 0")
    case True
    with a show ?thesis by (simp add: applyRemoveChars_def slice_def relIndex_def)
  next
    case False
    with a have "nat (int (length nm) - rc_count c) = length nm - nat (rc_count c)" by arith
    with a False show ?thesis by (simp add: applyRemoveChars_def slice_def relIndex_def)
  qed
next
  assume "rc_mode c = CharRange \<and> 0 \<le> rc_startIndex c \<and> rc_startIndex c \<le> rc_endIndex c"
  then show "applyRemoveChars env nm c
        = take (nat (rc_startIndex c)) nm @ drop (nat (rc_endIndex c)) nm"
    by (simp add: applyRemoveChars_def slice_def sliceFrom_def relIndex_def min_def)
next
  assume "rc_mode c = SpecificChars"
  then show "applyRemoveChars env nm c = filter (\<lambda>ch. ch \<notin> set (rc_characters c)) nm"
    by (simp add: applyRemoveChars_def)
next
  assume "rc_mode c = ByPattern"
  then show "applyRemoveChars env nm c =
        (case regExpError env (rc_pattern c) ''g'' of
           Some m \<Rightarrow> nm
         | None \<Rightarrow> regExpReplace env (rc_pattern c) ''g'' nm [])"
    by (simp add: applyRemoveChars_def replaceOrKeep_def)
qed

text \<open>The theorem at the name \<open>abcde\<close> in four of the modes.\<close>

theorem remove_chars_modes_witness:
  "\<forall>env.
     applyRemoveChars env ''abcde''
       \<lparr>rc_mode = FirstN, rc_count = 2, rc_startIndex = 0, rc_endIndex = 0,
        rc_characters = [], rc_pattern = []\<rparr> = ''cde'' \<and>
     applyRemoveChars env ''abcde''
       \<lparr>rc_mode = LastN, rc_count = 0, rc_startIndex = 0, rc_endIndex = 0,
        rc_characters = [], rc_pattern = []\<rparr> = ''abcde'' \<and>
     applyRemoveChars env ''abcde''
       \<lparr>rc_mode = LastN, rc_count = 2, rc_startIndex = 0, rc_endIndex = 0,
        rc_characters = [], rc_pattern = []\<rparr> = ''abc'' \<and>
     applyRemoveChars env ''abcde''
       \<lparr>rc_mode = CharRange, rc_count = 0, rc_startIndex = 1, rc_endIndex = 3,
        rc_characters = [], rc_pattern = []\<rparr> = ''ade'' \<and>
     applyRemoveChars env ''abcde''
       \<lparr>rc_mode = SpecificChars, rc_count = 0, rc_startIndex = 0, rc_endIndex = 0,
        rc_characters = ''db'', rc_pattern = []\<rparr> = ''ace''"
proof (intro allI)
  fix env :: platform
  let ?c = "\<lambda>m n a b cs. \<lparr>rc_mode = m, rc_count = n, rc_startIndex = a, rc_endIndex = b,
        rc_characters = cs, rc_pattern = []\<rparr>"
  show "applyRemoveChars env ''abcde'' (?c FirstN 2 0 0 []) = ''cde'' \<and>
     applyRemoveChars env ''abcde'' (?c LastN 0 0 0 []) = ''abcde'' \<and>
     applyRemoveChars env ''abcde'' (?c LastN 2 0 0 []) = ''abc'' \<and>
     applyRemoveChars env ''abcde'' (?c CharRange 0 1 3 []) = ''ade'' \<and>
     applyRemoveChars env ''abcde'' (?c SpecificChars 0 0 0 ''db'') = ''ace''"
    using remove_chars_modes [of "?c FirstN 2 0 0 []" env "''abcde''"]
      remove_chars_modes [of "?c LastN 0 0 0 []" env "''abcde''"]
      remove_chars_modes [of "?c LastN 2 0 0 []" env "''abcde''"]
      remove_chars_modes [of "?c CharRange 0 1 3 []" env "''abcde''"]
      remove_chars_modes [of "?c SpecificChars 0 0 0 ''db''" env "''abcde''"]
    by simp
qed

text \<open>
  Claim C9 does not hold of the code in the mode \<open>range\<close>: \<open>applyRemoveChars\<close> joins the
  characters before \<open>startIndex\<close> with those from \<open>endIndex\<close> on, and with a start index
  after the end index (as when 3 is typed into the start field while the end field is
  still 0) characters are repeated instead of none being removed.
\<close>

theorem range_with_start_after_end:
  "applyRemoveChars env ''abcde''
     \<lparr>rc_mode = CharRange, rc_count = 0, rc_startIndex = 3, rc_endIndex = 0,
      rc_characters = [], rc_pattern = []\<rparr> = ''abcabcde'' \<and>
   applyRemoveChars env ''abcde''
     \<lparr>rc_mode = CharRange, rc_count = 0, rc_startIndex = 3, rc_endIndex = 1,
      rc_characters = [], rc_pattern = []\<rparr> = ''abcbcde''"
  by (simp add: applyRemoveChars_def string_defs)

end
